theory Spec2Isabelle
  imports Main "HOL-Library.AList"
begin

section \<open>Strings as the report tool uses them\<close>

text \<open>
  Python strings are modelled as \<open>string\<close>. Three library operations of Python occur
  in the code under study: \<^verbatim>\<open>a in b\<close> on strings (contiguous substring test),
  \<^verbatim>\<open>str.lower()\<close> and \<^verbatim>\<open>str.rstrip()\<close>. On a string of ASCII characters the
  last two are defined here as Python defines them: the letters \<^verbatim>\<open>A\<close> to \<^verbatim>\<open>Z\<close>
  are folded to \<^verbatim>\<open>a\<close> to \<^verbatim>\<open>z\<close>, and the white space stripped is the characters
  9 to 13 and 28 to 32. On a string with a character outside ASCII both follow the Unicode
  tables of the interpreter (folding of other letters, other white space); there they are
  taken from the record \<open>builtins\<close>, which stands for the interpreter.
\<close>

record builtins =
  str_lower :: "string \<Rightarrow> string"
  str_rstrip :: "string \<Rightarrow> string"

definition isascii :: "string \<Rightarrow> bool" where
  "isascii s = list_all (\<lambda>c. (of_char c :: nat) < 128) s"

fun startswith :: "string \<Rightarrow> string \<Rightarrow> bool" where
  "startswith [] s = True"
| "startswith (c # cs) [] = False"
| "startswith (c # cs) (d # ds) = (c = d \<and> startswith cs ds)"

text \<open>\<open>str_in sub s\<close> is Python's \<^verbatim>\<open>sub in s\<close>.\<close>

fun str_in :: "string \<Rightarrow> string \<Rightarrow> bool" where
  "str_in sub [] = (sub = [])"
| "str_in sub (d # ds) = (startswith sub (d # ds) \<or> str_in sub ds)"

definition ascii_uppercase :: string where
  "ascii_uppercase = ''ABCDEFGHIJKLMNOPQRSTUVWXYZ''"

definition ascii_lowercase :: string where
  "ascii_lowercase = ''abcdefghijklmnopqrstuvwxyz''"

definition lower_char :: "char \<Rightarrow> char" where
  "lower_char c =
     (case map_of (zip ascii_uppercase ascii_lowercase) c of None \<Rightarrow> c | Some l \<Rightarrow> l)"

definition lower :: "builtins \<Rightarrow> string \<Rightarrow> string" where
  "lower py s = (if isascii s then map lower_char s else str_lower py s)"

definition isspace :: "char \<Rightarrow> bool" where
  "isspace c =
     (let n = (of_char c :: nat) in (9 \<le> n \<and> n \<le> 13) \<or> (28 \<le> n \<and> n \<le> 32))"

definition rstrip :: "builtins \<Rightarrow> string \<Rightarrow> string" where
  "rstrip py s = (if isascii s then rev (dropWhile isspace (rev s)) else str_rstrip py s)"

text \<open>
  What it means for two characters to be equal when case is ignored, for the statement
  about \<^verbatim>\<open>checkwebcat\<close>: they are the same character, or the upper-case and the
  lower-case form of one letter.
\<close>

definition same_letter :: "char \<Rightarrow> char \<Rightarrow> bool" where
  "same_letter c d =
     (c = d \<or> (c, d) \<in> set (zip ascii_uppercase ascii_lowercase)
            \<or> (d, c) \<in> set (zip ascii_uppercase ascii_lowercase))"

section \<open>Category and country evaluators\<close>

text \<open>
  \<^verbatim>\<open>checkwebcat(webcats, block_list)\<close>: two nested \<^verbatim>\<open>for\<close> loops, the outer one
  over the block list and the inner one over the categories; a hit sets \<^verbatim>\<open>result\<close>
  and \<^verbatim>\<open>flag\<close> together and leaves both loops. The model returns, beside the
  result, the list of (entry, category) pairs on which the substring test was evaluated, in
  the order of evaluation, so that what the \<^verbatim>\<open>break\<close>s skip can be stated.
  The argument \<open>webcats\<close> is what \<^verbatim>\<open>web_categories.get(item)\<close> yields: \<open>None\<close>
  when the indicator has no entry.
\<close>

definition cat_hit :: "builtins \<Rightarrow> string \<times> string \<Rightarrow> bool" where
  "cat_hit py p = str_in (lower py (fst p)) (lower py (snd p))"

fun webcat_inner :: "builtins \<Rightarrow> string \<Rightarrow> string list \<Rightarrow> bool \<times> (string \<times> string) list" where
  "webcat_inner py item [] = (False, [])"
| "webcat_inner py item (cat # cats) =
     (if str_in (lower py item) (lower py cat) then (True, [(item, cat)])
      else (let (flag, tested) = webcat_inner py item cats in (flag, (item, cat) # tested)))"

fun webcat_outer :: "builtins \<Rightarrow> string list \<Rightarrow> string list \<Rightarrow> bool \<times> (string \<times> string) list" where
  "webcat_outer py [] webcats = (False, [])"
| "webcat_outer py (item # items) webcats =
     (let (flag, tested) = webcat_inner py item webcats in
      if flag then (True, tested)
      else (let (result, tested') = webcat_outer py items webcats in (result, tested @ tested')))"

definition checkwebcat_run ::
    "builtins \<Rightarrow> string list option \<Rightarrow> string list \<Rightarrow> bool \<times> (string \<times> string) list" where
  "checkwebcat_run py webcats block_list =
     (case webcats of
        None \<Rightarrow> (False, [])
      | Some cats \<Rightarrow> if cats = [] then (False, []) else webcat_outer py block_list cats)"

definition checkwebcat :: "builtins \<Rightarrow> string list option \<Rightarrow> string list \<Rightarrow> bool" where
  "checkwebcat py webcats block_list = fst (checkwebcat_run py webcats block_list)"

text \<open>
  \<^verbatim>\<open>checkcountry(domain, country_codes)\<close>: one loop with \<^verbatim>\<open>break\<close>, guarded by
  the truth value of the string \<^verbatim>\<open>domain\<close> (false for the empty string).
\<close>

fun country_loop :: "string \<Rightarrow> string list \<Rightarrow> bool" where
  "country_loop domain [] = False"
| "country_loop domain (co # cos) = (if str_in co domain then True else country_loop domain cos)"

definition checkcountry :: "string \<Rightarrow> string list \<Rightarrow> bool" where
  "checkcountry domain country_codes =
     (if domain \<noteq> [] then country_loop domain country_codes else False)"

section \<open>Threat records, responses and the service handle\<close>

text \<open>
  A time stamp is the \<^verbatim>\<open>datetime\<close> that \<^verbatim>\<open>strptime\<close> yields for the text of a
  record, counted in microseconds from \<^verbatim>\<open>datetime.fromtimestamp(0)\<close>, the seed of
  the two accumulators of \<^verbatim>\<open>checktide\<close>. A threat record is one element of the
  \<^verbatim>\<open>'threat'\<close> list of a parsed response: the keys \<^verbatim>\<open>'profile'\<close>,
  \<^verbatim>\<open>'class'\<close> and \<^verbatim>\<open>'imported'\<close> are read unconditionally by the code,
  \<^verbatim>\<open>'expiration'\<close> only when the record has it. Responses whose text is not JSON of
  this shape are outside the type.
\<close>

type_synonym timestamp = int

definition epoch :: timestamp where
  "epoch = 0"

record threat_record =
  profile :: string
  tclass :: string
  imported :: timestamp
  expiration :: "timestamp option"

text \<open>\<open>threat\<close> is \<^verbatim>\<open>parsed_json.get('threat')\<close>: \<open>None\<close> when the key is missing.\<close>

record response =
  status_code :: int
  threat :: "threat_record list option"

text \<open>
  The web-category source: \<open>dossier_names\<close> are the \<^verbatim>\<open>'name'\<close> values of
  \<^verbatim>\<open>results[0]['data']['results']\<close>, empty when that list is empty or missing.
\<close>

record dossier_response =
  dossier_status :: int
  dossier_names :: "string list"

text \<open>The \<^verbatim>\<open>bloxone.b1td\<close> object: the three queries and the list of success codes.\<close>

record b1td =
  querytidestate :: "string \<Rightarrow> string \<Rightarrow> response"
  querytide :: "string \<Rightarrow> string \<Rightarrow> response"
  dossierquery :: "string \<Rightarrow> string \<Rightarrow> dossier_response"
  return_codes_ok :: "int list"

record db_row =
  row_profile :: string
  row_class :: string

text \<open>
  The functions of \<^verbatim>\<open>bloxone.utils\<close> that the tool calls. \<open>opendb\<close> and
  \<open>get_table\<close> yield \<open>None\<close> where the library returns a false value.
\<close>

record utils =
  strip_host :: "string \<Rightarrow> string"
  data_type :: "string \<Rightarrow> string"
  opendb :: "string \<Rightarrow> string option"
  get_table :: "string \<Rightarrow> string option"
  db_query :: "string \<Rightarrow> string \<Rightarrow> string \<Rightarrow> string \<Rightarrow> db_row list"

text \<open>The calls made to the outside, in the order they are made.\<close>

datatype call =
    Querytidestate string string
  | Querytide string string
  | Dossierquery string string
  | Db_query string string

text \<open>
  \<^verbatim>\<open>collections.Counter\<close>, with the insertion order of its keys: incrementing a key
  that is present keeps its place, a new key goes to the end.
\<close>

type_synonym counter = "(string \<times> nat) list"

definition counter_incr :: "counter \<Rightarrow> string \<Rightarrow> counter" where
  "counter_incr cc k =
     AList.update k (case map_of cc k of None \<Rightarrow> 1 | Some n \<Rightarrow> n + 1) cc"

definition getkeys :: "counter \<Rightarrow> string list" where
  "getkeys cc = map fst cc"

definition most_recent :: "timestamp \<Rightarrow> timestamp \<Rightarrow> timestamp" where
  "most_recent t1 t2 = (if t1 > t2 then t1 else t2)"

text \<open>
  The second element of a result is the list of profiles, or, after a failed query, the
  string \<^verbatim>\<open>"API Exception Occurred"\<close>.
\<close>

datatype profiles = Profiles "string list" | Message string

definition api_exception :: string where
  "api_exception = ''API Exception Occurred''"

definition get_threat :: "response \<Rightarrow> threat_record list" where
  "get_threat r = (case threat r of None \<Rightarrow> [] | Some rs \<Rightarrow> rs)"

section \<open>The query adapters\<close>

text \<open>The loop of \<^verbatim>\<open>checkactive\<close> over the records of a response.\<close>

fun active_loop ::
    "threat_record list \<Rightarrow> int \<times> counter \<times> counter \<Rightarrow> int \<times> counter \<times> counter" where
  "active_loop [] st = st"
| "active_loop (t # ts) (totalthreats, profile_stats, class_stats) =
     active_loop ts
       (totalthreats + 1, counter_incr profile_stats (profile t),
        counter_incr class_stats (tclass t))"

text \<open>
  \<^verbatim>\<open>checkactive(query, qtype, b1td, check_domain, domain_checked)\<close>. The result is the
  list \<^verbatim>\<open>[totalthreats, profiles, tclasses, domain_checked]\<close>, paired with the calls
  made. The only recursive call passes \<^verbatim>\<open>check_domain=False\<close>.
\<close>

function checkactive ::
    "utils \<Rightarrow> string \<Rightarrow> string \<Rightarrow> b1td \<Rightarrow> bool \<Rightarrow> bool \<Rightarrow>
     (int \<times> profiles \<times> string list \<times> bool) \<times> call list" where
  "checkactive u query qtype b check_domain domain_checked =
     (let response = querytidestate b qtype query in
      if status_code response \<in> set (return_codes_ok b) then
        if get_threat response \<noteq> [] then
          (let (totalthreats, profile_stats, class_stats) =
                 active_loop (get_threat response) (0, [], [])
           in ((totalthreats, Profiles (getkeys profile_stats), getkeys class_stats,
                domain_checked),
               [Querytidestate qtype query]))
        else if check_domain then
          (let domain = strip_host u query in
           if domain \<noteq> query then
             (let (results, calls) = checkactive u domain qtype b False True
              in (results, Querytidestate qtype query # calls))
           else ((0, Profiles [], [], domain_checked), [Querytidestate qtype query]))
        else ((0, Profiles [], [], domain_checked), [Querytidestate qtype query])
      else ((-1, Message api_exception, [], domain_checked), [Querytidestate qtype query]))"
  by pat_completeness auto
termination
  by (relation "measure (\<lambda>(u, query, qtype, b, check_domain, domain_checked).
        if check_domain then 1 else 0)") auto

text \<open>The loop of \<^verbatim>\<open>checktide\<close>, with the two most-recent accumulators.\<close>

fun tide_loop ::
    "threat_record list \<Rightarrow> int \<times> counter \<times> counter \<times> timestamp \<times> timestamp \<Rightarrow>
     int \<times> counter \<times> counter \<times> timestamp \<times> timestamp" where
  "tide_loop [] st = st"
| "tide_loop (t # ts) (totalthreats, profile_stats, class_stats, last_available, last_expiration) =
     tide_loop ts
       (totalthreats + 1, counter_incr profile_stats (profile t),
        counter_incr class_stats (tclass t),
        most_recent last_available (imported t),
        (case expiration t of
           None \<Rightarrow> last_expiration
         | Some e \<Rightarrow> most_recent last_expiration e))"

text \<open>
  The end of \<^verbatim>\<open>checktide\<close>: a date equal to the seed becomes the empty string
  (\<open>None\<close>), and the result list is built from the six local variables.
\<close>

fun tide_finish ::
    "int \<times> profiles \<times> string list \<times> timestamp option \<times> timestamp option \<times> bool \<Rightarrow>
     int \<times> profiles \<times> string list \<times> timestamp option \<times> timestamp option \<times> bool" where
  "tide_finish (totalthreats, profs, tclasses, last_available, last_expiration, domain_checked) =
     (totalthreats, profs, tclasses,
      (if last_available = Some epoch then None else last_available),
      (if last_expiration = Some epoch then None else last_expiration),
      domain_checked)"

text \<open>
  \<^verbatim>\<open>checktide(query, qtype, b1td, check_domain, domain_checked)\<close>. After the fallback
  call the six local variables are taken from its result (a list of six elements, hence
  true as a condition), so the final check sees the fallback's dates.
\<close>

function checktide ::
    "utils \<Rightarrow> string \<Rightarrow> string \<Rightarrow> b1td \<Rightarrow> bool \<Rightarrow> bool \<Rightarrow>
     (int \<times> profiles \<times> string list \<times> timestamp option \<times> timestamp option \<times> bool)
       \<times> call list" where
  "checktide u query qtype b check_domain domain_checked =
     (let response = querytide b qtype query in
      if status_code response \<in> set (return_codes_ok b) then
        if get_threat response \<noteq> [] then
          (let (totalthreats, profile_stats, class_stats, last_available, last_expiration) =
                 tide_loop (get_threat response) (0, [], [], epoch, epoch)
           in (tide_finish
                 (totalthreats, Profiles (getkeys profile_stats), getkeys class_stats,
                  Some last_available, Some last_expiration, domain_checked),
               [Querytide qtype query]))
        else if check_domain then
          (let domain = strip_host u query in
           if domain \<noteq> query then
             (let (results, calls) = checktide u domain qtype b False True
              in (tide_finish results, Querytide qtype query # calls))
           else (tide_finish (0, Profiles [], [], Some epoch, Some epoch, domain_checked),
                 [Querytide qtype query]))
        else (tide_finish (0, Profiles [], [], Some epoch, Some epoch, domain_checked),
              [Querytide qtype query])
      else (tide_finish
              (-1, Message api_exception, [], Some epoch, Some epoch, domain_checked),
            [Querytide qtype query]))"
  by pat_completeness auto
termination
  by (relation "measure (\<lambda>(u, query, qtype, b, check_domain, domain_checked).
        if check_domain then 1 else 0)") auto

text \<open>\<^verbatim>\<open>checkoffline(query, qtype, db_cursor, db_table)\<close>: the same loop over database rows.\<close>

fun offline_loop ::
    "db_row list \<Rightarrow> int \<times> counter \<times> counter \<Rightarrow> int \<times> counter \<times> counter" where
  "offline_loop [] st = st"
| "offline_loop (r # rs) (totalthreats, profile_stats, class_stats) =
     offline_loop rs
       (totalthreats + 1, counter_incr profile_stats (row_profile r),
        counter_incr class_stats (row_class r))"

definition checkoffline ::
    "utils \<Rightarrow> string \<Rightarrow> string \<Rightarrow> string \<Rightarrow> string \<Rightarrow>
     (int \<times> profiles \<times> string list) \<times> call list" where
  "checkoffline u query qtype db_cursor db_table =
     (let rows = db_query u db_cursor db_table qtype query in
      if rows \<noteq> [] then
        (let (totalthreats, profile_stats, class_stats) = offline_loop rows (0, [], [])
         in ((totalthreats, Profiles (getkeys profile_stats), getkeys class_stats),
             [Db_query qtype query]))
      else ((0, Profiles [], []), [Db_query qtype query]))"

text \<open>\<^verbatim>\<open>get_web_categories(query, qtype, b1td)\<close>.\<close>

definition get_web_categories ::
    "string \<Rightarrow> string \<Rightarrow> b1td \<Rightarrow> string list \<times> call list" where
  "get_web_categories query qtype b =
     (let response = dossierquery b query qtype in
      if dossier_status response \<in> set (return_codes_ok b) then
        (if dossier_names response \<noteq> [] then (dossier_names response, [Dossierquery qtype query])
         else ([''Uncategorised''], [Dossierquery qtype query]))
      else ([], [Dossierquery qtype query]))"

text \<open>
  The elements of the two result lists by name: \<^verbatim>\<open>results[0]\<close>, \<^verbatim>\<open>results[1]\<close>
  and the flag \<^verbatim>\<open>domain_checked\<close> (\<^verbatim>\<open>results[3]\<close> of \<^verbatim>\<open>checkactive\<close>,
  \<^verbatim>\<open>results[5]\<close> of \<^verbatim>\<open>checktide\<close>), and the two dates of \<^verbatim>\<open>checktide\<close>.
\<close>

fun active_count :: "int \<times> profiles \<times> string list \<times> bool \<Rightarrow> int" where
  "active_count (totalthreats, profs, tclasses, domain_checked) = totalthreats"

fun active_profiles :: "int \<times> profiles \<times> string list \<times> bool \<Rightarrow> profiles" where
  "active_profiles (totalthreats, profs, tclasses, domain_checked) = profs"

fun active_domain_checked :: "int \<times> profiles \<times> string list \<times> bool \<Rightarrow> bool" where
  "active_domain_checked (totalthreats, profs, tclasses, domain_checked) = domain_checked"

type_synonym tide_results =
  "int \<times> profiles \<times> string list \<times> timestamp option \<times> timestamp option \<times> bool"

fun tide_count :: "tide_results \<Rightarrow> int" where
  "tide_count (totalthreats, profs, tclasses, la, le, domain_checked) = totalthreats"

fun tide_profiles :: "tide_results \<Rightarrow> profiles" where
  "tide_profiles (totalthreats, profs, tclasses, la, le, domain_checked) = profs"

fun tide_classes :: "tide_results \<Rightarrow> string list" where
  "tide_classes (totalthreats, profs, tclasses, la, le, domain_checked) = tclasses"

fun tide_last_available :: "tide_results \<Rightarrow> timestamp option" where
  "tide_last_available (totalthreats, profs, tclasses, la, le, domain_checked) = la"

fun tide_last_expiration :: "tide_results \<Rightarrow> timestamp option" where
  "tide_last_expiration (totalthreats, profs, tclasses, la, le, domain_checked) = le"

fun tide_domain_checked :: "tide_results \<Rightarrow> bool" where
  "tide_domain_checked (totalthreats, profs, tclasses, la, le, domain_checked) = domain_checked"

text \<open>A call whose response carries a status outside \<^verbatim>\<open>return_codes_ok\<close>.\<close>

definition call_failed :: "b1td \<Rightarrow> call \<Rightarrow> bool" where
  "call_failed b c =
     (case c of
        Querytidestate qtype query \<Rightarrow>
          status_code (querytidestate b qtype query) \<notin> set (return_codes_ok b)
      | Querytide qtype query \<Rightarrow>
          status_code (querytide b qtype query) \<notin> set (return_codes_ok b)
      | Dossierquery qtype query \<Rightarrow>
          dossier_status (dossierquery b query qtype) \<notin> set (return_codes_ok b)
      | Db_query qtype query \<Rightarrow> False)"

text \<open>
  The records that \<^verbatim>\<open>checktide\<close> read in the course of the given calls: those of
  every response with a success status, which are the responses it parses.
\<close>

definition tide_records_read :: "b1td \<Rightarrow> call list \<Rightarrow> threat_record list" where
  "tide_records_read b calls =
     concat (map (\<lambda>c. case c of
                Querytide qtype query \<Rightarrow>
                  if status_code (querytide b qtype query) \<in> set (return_codes_ok b)
                  then get_threat (querytide b qtype query) else []
              | Querytidestate qtype query \<Rightarrow> []
              | Dossierquery qtype query \<Rightarrow> []
              | Db_query qtype query \<Rightarrow> []) calls)"

section \<open>Files and block lists\<close>

text \<open>
  The file system as the tool sees it: \<open>files\<close> gives the lines (each with its line
  ending) of every file that exists, \<open>can_move\<close> and \<open>can_write\<close> tell whether
  \<^verbatim>\<open>shutil.move\<close> to the backup name and \<^verbatim>\<open>open(filename, mode='w')\<close> succeed.
\<close>

record fsys =
  files :: "string \<Rightarrow> string list option"
  can_move :: "string \<Rightarrow> bool"
  can_write :: "string \<Rightarrow> bool"

datatype error = IOError string | KeyError string | SystemExit int | TypeError string

text \<open>
  \<^verbatim>\<open>load_list(filename)\<close>: \<^verbatim>\<open>open(filename)\<close> raises when the file does not exist,
  and nothing in \<^verbatim>\<open>load_list\<close> or in \<^verbatim>\<open>gen_report\<close> catches it.
\<close>

definition load_list :: "builtins \<Rightarrow> fsys \<Rightarrow> string \<Rightarrow> error + string list" where
  "load_list py fs filename =
     (case files fs filename of
        None \<Rightarrow> Inl (IOError filename)
      | Some ls \<Rightarrow> Inr (map (rstrip py) ls))"

text \<open>
  \<^verbatim>\<open>open_file(filename)\<close>: an existing file is moved to \<^verbatim>\<open>filename + ".bak"\<close>
  first. The result is the handle (its name) or \<open>None\<close> for \<^verbatim>\<open>False\<close>, and the
  file system after the call.
\<close>

definition open_file :: "fsys \<Rightarrow> string \<Rightarrow> string option \<times> fsys" where
  "open_file fs filename =
     (case files fs filename of
        Some old \<Rightarrow>
          if can_move fs filename then
            (let fs' = fs\<lparr>files := (files fs)(filename := None, filename @ ''.bak'' := Some old)\<rparr>
             in if can_write fs filename
                then (Some filename, fs'\<lparr>files := (files fs')(filename := Some [])\<rparr>)
                else (None, fs'))
          else (None, fs)
      | None \<Rightarrow>
          if can_write fs filename
          then (Some filename, fs\<lparr>files := (files fs)(filename := Some [])\<rparr>)
          else (None, fs))"

section \<open>The report\<close>

text \<open>
  A value of \<^verbatim>\<open>activethreats\<close> is the four-element list of \<^verbatim>\<open>checkactive\<close> or the
  triple of \<^verbatim>\<open>checkoffline\<close>; the report reads its elements 0, 1 and 2.
\<close>

datatype active_entry =
    Online "int \<times> profiles \<times> string list \<times> bool"
  | Offline "int \<times> profiles \<times> string list"

fun entry0 :: "active_entry \<Rightarrow> int" where
  "entry0 (Online (totalthreats, profs, tclasses, domain_checked)) = totalthreats"
| "entry0 (Offline (totalthreats, profs, tclasses)) = totalthreats"

fun entry1 :: "active_entry \<Rightarrow> profiles" where
  "entry1 (Online (totalthreats, profs, tclasses, domain_checked)) = profs"
| "entry1 (Offline (totalthreats, profs, tclasses)) = profs"

fun entry2 :: "active_entry \<Rightarrow> string list" where
  "entry2 (Online (totalthreats, profs, tclasses, domain_checked)) = tclasses"
| "entry2 (Offline (totalthreats, profs, tclasses)) = tclasses"

text \<open>
  What \<^verbatim>\<open>gen_report\<close> prints, line by line, as the values that go into each line; the
  layout of the text is not modelled. The rows of the file and the rows for the reader
  carry the same values.
\<close>

datatype line =
    Header_active
  | Header_full
  | Row_active string int profiles "string list"
  | Row_full string string int profiles int profiles "string list"
      "timestamp option" "timestamp option" bool "string list option"
  | Summary_active int int int
  | Summary_full int int int int
  | Csv_written string

text \<open>The \<^verbatim>\<open>if\<close>/\<^verbatim>\<open>elif\<close> chain of \<^verbatim>\<open>gen_report\<close> that sets \<^verbatim>\<open>action\<close>.\<close>

definition action_label ::
    "builtins \<Rightarrow> int \<Rightarrow> int \<Rightarrow> string list option \<Rightarrow> string \<Rightarrow> string list \<Rightarrow> string list \<Rightarrow> string" where
  "action_label py active_n total_n webcats item block_categories country_codes =
     (if active_n > 0 then ''Active''
      else if total_n > 0 then ''Not Active''
      else if checkwebcat py webcats block_categories then ''Category Block''
      else if checkcountry item country_codes then ''Country Block''
      else '''')"

text \<open>
  The loop of the active-only branch. The state is \<^verbatim>\<open>with_active\<close>, the lines
  printed and the lines written to the file.
\<close>

fun active_rows ::
    "(string \<times> active_entry) list \<Rightarrow> bool \<Rightarrow> int \<times> line list \<times> line list \<Rightarrow>
     int \<times> line list \<times> line list" where
  "active_rows [] to_file st = st"
| "active_rows ((item, e) # rest) to_file (with_active, out, csv) =
     active_rows rest to_file
       ((if entry0 e > 0 then with_active + 1 else with_active),
        (if to_file then out else out @ [Row_active item (entry0 e) (entry1 e) (entry2 e)]),
        (if to_file then csv @ [Row_active item (entry0 e) (entry1 e) (entry2 e)] else csv))"

text \<open>
  The loop of the full branch: \<^verbatim>\<open>totalthreats[item]\<close> raises \<^verbatim>\<open>KeyError\<close> for an
  indicator without an entry, \<^verbatim>\<open>web_categories.get(item)\<close> gives \<^verbatim>\<open>None\<close>.
\<close>

fun full_rows ::
    "builtins \<Rightarrow> (string \<times> active_entry) list \<Rightarrow> (string \<times> tide_results) list \<Rightarrow>
     (string \<times> string list) list \<Rightarrow> string list \<Rightarrow> string list \<Rightarrow> bool \<Rightarrow>
     int \<times> int \<times> line list \<times> line list \<Rightarrow>
     error + (int \<times> int \<times> line list \<times> line list)" where
  "full_rows py [] totalthreats web_categories block_categories country_codes to_file st = Inr st"
| "full_rows py ((item, e) # rest) totalthreats web_categories block_categories country_codes
       to_file (with_active, with_threats, out, csv) =
     (case map_of totalthreats item of
        None \<Rightarrow> Inl (KeyError item)
      | Some t \<Rightarrow>
          (let action = action_label py (entry0 e) (tide_count t) (map_of web_categories item)
                          item block_categories country_codes;
               row = Row_full item action (entry0 e) (entry1 e) (tide_count t)
                       (tide_profiles t) (tide_classes t) (tide_last_available t)
                       (tide_last_expiration t) (tide_domain_checked t)
                       (map_of web_categories item)
           in full_rows py rest totalthreats web_categories block_categories country_codes to_file
                ((if entry0 e > 0 then with_active + 1 else with_active),
                 (if tide_count t > 0 then with_threats + 1 else with_threats),
                 (if to_file then out else out @ [row]),
                 (if to_file then csv @ [row] else csv))))"

text \<open>
  \<^verbatim>\<open>gen_report(activethreats, totalthreats, web_categories, filehandle)\<close>: the two block
  lists are loaded first, whatever the mode. The result is the lines printed and the lines
  written to the file, or the exception that ends the function.
\<close>

definition gen_report ::
    "builtins \<Rightarrow> fsys \<Rightarrow> (string \<times> active_entry) list \<Rightarrow> (string \<times> tide_results) list \<Rightarrow>
     (string \<times> string list) list \<Rightarrow> string option \<Rightarrow> error + (line list \<times> line list)" where
  "gen_report py fs activethreats totalthreats web_categories filehandle =
     (let total_hosts = int (length activethreats) in
      case load_list py fs ''block_categories'' of
        Inl err \<Rightarrow> Inl err
      | Inr block_categories \<Rightarrow>
     (case load_list py fs ''country_codes'' of
        Inl err \<Rightarrow> Inl err
      | Inr country_codes \<Rightarrow>
     (let to_file = (filehandle \<noteq> None);
          written = (case filehandle of None \<Rightarrow> [] | Some name \<Rightarrow> [Csv_written name])
      in
      if length totalthreats = 0 then
        (let (with_active, out, csv) =
               active_rows activethreats to_file
                 (0, [], (if to_file then [Header_active] else []));
             summary = Summary_active total_hosts with_active (total_hosts - with_active)
         in Inr (out @ [summary] @ written, (if to_file then csv @ [summary] else csv)))
      else
        (case full_rows py activethreats totalthreats web_categories block_categories
                country_codes to_file (0, 0, [], (if to_file then [Header_full] else [])) of
           Inl err \<Rightarrow> Inl err
         | Inr (with_active, with_threats, out, csv) \<Rightarrow>
             (let summary = Summary_full total_hosts with_active with_threats
                              (total_hosts - with_threats)
              in Inr (out @ [summary] @ written,
                      (if to_file then csv @ [summary] else csv)))))))"

fun is_row :: "line \<Rightarrow> bool" where
  "is_row (Row_active item n p c) = True"
| "is_row (Row_full item action an ap tn tp tc la le dc cats) = True"
| "is_row l = False"

fun is_summary :: "line \<Rightarrow> bool" where
  "is_summary (Summary_active n_total n_active n_inactive) = True"
| "is_summary (Summary_full n_total n_active n_threats n_noinfo) = True"
| "is_summary l = False"

text \<open>The lines of the four-column schema (no action label, no historical columns).\<close>

fun active_schema :: "line \<Rightarrow> bool" where
  "active_schema Header_active = True"
| "active_schema (Row_active item n p c) = True"
| "active_schema (Summary_active n_total n_active n_inactive) = True"
| "active_schema (Csv_written name) = True"
| "active_schema l = False"

text \<open>
  The row that each loop adds for one entry of \<^verbatim>\<open>activethreats\<close>, and the label of a
  row, for the statements about the report.
\<close>

definition full_row ::
    "builtins \<Rightarrow> (string \<times> tide_results) list \<Rightarrow> (string \<times> string list) list \<Rightarrow> string list \<Rightarrow>
     string list \<Rightarrow> string \<times> active_entry \<Rightarrow> line" where
  "full_row py totalthreats web_categories block_categories country_codes p =
     (let item = fst p; e = snd p; t = the (map_of totalthreats item) in
      Row_full item
        (action_label py (entry0 e) (tide_count t) (map_of web_categories item) item
           block_categories country_codes)
        (entry0 e) (entry1 e) (tide_count t) (tide_profiles t) (tide_classes t)
        (tide_last_available t) (tide_last_expiration t) (tide_domain_checked t)
        (map_of web_categories item))"

definition active_row :: "string \<times> active_entry \<Rightarrow> line" where
  "active_row p = Row_active (fst p) (entry0 (snd p)) (entry1 (snd p)) (entry2 (snd p))"

fun row_action :: "line \<Rightarrow> string" where
  "row_action (Row_full item action an ap tn tp tc la le dc cats) = action"
| "row_action l = []"

section \<open>The run\<close>

text \<open>
  The options as \<^verbatim>\<open>argparse\<close> delivers them, read by the body of \<^verbatim>\<open>main\<close>.
\<close>

record args =
  arg_input :: string
  arg_output :: "string option"
  arg_bogus :: "string option"
  arg_active :: bool
  arg_check_domains :: bool
  arg_webcat :: bool
  arg_local :: "string option"

text \<open>The truth value of an optional string option: given, and not the empty string.\<close>

definition truthy :: "string option \<Rightarrow> bool" where
  "truthy s = (case s of None \<Rightarrow> False | Some x \<Rightarrow> x \<noteq> [])"

record state =
  st_activethreats :: "(string \<times> active_entry) list"
  st_totalthreats :: "(string \<times> tide_results) list"
  st_web_cats :: "(string \<times> string list) list"
  st_linecount :: nat
  st_bogus_lines :: nat
  st_bogus_out :: "(nat \<times> string) list"
  st_calls :: "call list"

definition init_state :: state where
  "init_state =
     \<lparr>st_activethreats = [], st_totalthreats = [], st_web_cats = [], st_linecount = 0,
      st_bogus_lines = 0, st_bogus_out = [], st_calls = []\<rparr>"

text \<open>
  One pass of the loop over the input lines. \<open>database\<close> is the cursor and the table of
  the local database when one is in use; \<open>bogus_out\<close> tells whether a file for bogus
  lines is open. Assigning to a key of a dictionary keeps the place of a key that is there.
\<close>

definition process_line ::
    "builtins \<Rightarrow> utils \<Rightarrow> b1td \<Rightarrow> (string \<times> string) option \<Rightarrow> bool \<Rightarrow> bool \<Rightarrow> bool \<Rightarrow> bool \<Rightarrow>
     state \<Rightarrow> string \<Rightarrow> state" where
  "process_line py u b database activeonly webcat check_domain bogus_out st ln =
     (let query = rstrip py ln;
          st = st\<lparr>st_linecount := st_linecount st + 1\<rparr>;
          qtype = data_type u query
      in
      if qtype \<noteq> ''invalid'' then
        (let st1 =
               (case database of
                  Some (db_cursor, db_table) \<Rightarrow>
                    (let (res, cs) = checkoffline u query qtype db_cursor db_table
                     in st\<lparr>st_activethreats :=
                              AList.update query (Offline res) (st_activethreats st),
                            st_calls := st_calls st @ cs\<rparr>)
                | None \<Rightarrow>
                    (let (res, cs) = checkactive u query qtype b check_domain False
                     in st\<lparr>st_activethreats :=
                              AList.update query (Online res) (st_activethreats st),
                            st_calls := st_calls st @ cs\<rparr>));
             st2 =
               (if \<not> activeonly then
                  (let (res, cs) = checktide u query qtype b check_domain False
                   in st1\<lparr>st_totalthreats := AList.update query res (st_totalthreats st1),
                           st_calls := st_calls st1 @ cs\<rparr>)
                else st1)
         in
         if qtype = ''host'' \<and> webcat then
           (let (cats, cs) = get_web_categories query qtype b
            in st2\<lparr>st_web_cats := AList.update query cats (st_web_cats st2),
                    st_calls := st_calls st2 @ cs\<rparr>)
         else st2)
      else
        (let st = st\<lparr>st_bogus_lines := st_bogus_lines st + 1\<rparr>
         in if bogus_out
            then st\<lparr>st_bogus_out := st_bogus_out st @ [(st_linecount st, query)]\<rparr>
            else st))"

fun process_lines ::
    "builtins \<Rightarrow> utils \<Rightarrow> b1td \<Rightarrow> (string \<times> string) option \<Rightarrow> bool \<Rightarrow> bool \<Rightarrow> bool \<Rightarrow> bool \<Rightarrow>
     state \<Rightarrow> string list \<Rightarrow> state" where
  "process_lines py u b database activeonly webcat check_domain bogus_out st [] = st"
| "process_lines py u b database activeonly webcat check_domain bogus_out st (ln # lns) =
     process_lines py u b database activeonly webcat check_domain bogus_out
       (process_line py u b database activeonly webcat check_domain bogus_out st ln) lns"

text \<open>
  How a run ends: \<^verbatim>\<open>main\<close> returns its exit code, or an exception leaves it
  (\<^verbatim>\<open>sys.exit(1)\<close> before the input is read, or an error that \<^verbatim>\<open>main\<close> does not
  catch).
\<close>

datatype outcome = Returned int | Raised error

record run =
  run_outcome :: outcome
  run_state :: state
  run_stdout :: "line list"
  run_csv :: "line list"

definition aborted :: "error \<Rightarrow> run" where
  "aborted err =
     \<lparr>run_outcome = Raised err, run_state = init_state, run_stdout = [], run_csv = []\<rparr>"

text \<open>
  The local database option: \<open>Inr None\<close> when it is not in use, \<open>Inr (Some (cursor,
  table))\<close> when it opened, \<^verbatim>\<open>sys.exit(1)\<close> otherwise.
\<close>

definition open_database :: "utils \<Rightarrow> args \<Rightarrow> error + (string \<times> string) option" where
  "open_database u a =
     (if truthy (arg_local a) then
        (case opendb u (the (arg_local a)) of
           Some db_cursor \<Rightarrow>
             (case get_table u db_cursor of
                None \<Rightarrow> Inl (SystemExit 1)
              | Some db_table \<Rightarrow> Inr (Some (db_cursor, db_table)))
         | None \<Rightarrow> Inl (SystemExit 1))
      else Inr None)"

text \<open>
  The body of \<^verbatim>\<open>main\<close> after the options are parsed, from the set-up of logging to
  the \<^verbatim>\<open>return\<close>, as a function of the options.
\<close>

definition main_body :: "builtins \<Rightarrow> utils \<Rightarrow> b1td \<Rightarrow> fsys \<Rightarrow> args \<Rightarrow> run" where
  "main_body py u b fs a =
     (let activeonly = (arg_active a \<or> truthy (arg_local a));
          webcat = arg_webcat a;
          check_domain = arg_check_domains a
      in
      case open_database u a of
        Inl err \<Rightarrow> aborted err
      | Inr database \<Rightarrow>
     (let (bogus_out, fs1) =
            (if truthy (arg_bogus a) then open_file fs (the (arg_bogus a)) else (None, fs))
      in
      if truthy (arg_bogus a) \<and> bogus_out = None then aborted (SystemExit 1)
      else
     (let (outfile, fs2) =
            (if truthy (arg_output a) then open_file fs1 (the (arg_output a)) else (None, fs1))
      in
      case files fs2 (arg_input a) of
        None \<Rightarrow>
          \<lparr>run_outcome = Returned 1, run_state = init_state, run_stdout = [], run_csv = []\<rparr>
      | Some lns \<Rightarrow>
          (let st = process_lines py u b database activeonly webcat check_domain
                      (bogus_out \<noteq> None) init_state lns
           in
           case gen_report py fs2 (st_activethreats st) (st_totalthreats st) (st_web_cats st)
                  outfile of
             Inl (IOError msg) \<Rightarrow>
               \<lparr>run_outcome = Returned 1, run_state = st, run_stdout = [], run_csv = []\<rparr>
           | Inl err \<Rightarrow>
               \<lparr>run_outcome = Raised err, run_state = st, run_stdout = [], run_csv = []\<rparr>
           | Inr (out, csv) \<Rightarrow>
               \<lparr>run_outcome = Returned 0, run_state = st, run_stdout = out,
                run_csv = csv\<rparr>))))"

text \<open>
  \<^verbatim>\<open>parseargs\<close> is defined without a parameter (\<^verbatim>\<open>def parseargs():\<close>), and
  \<^verbatim>\<open>main\<close> calls it as \<^verbatim>\<open>parseargs(raw_args)\<close>. Python binds the arguments of a
  call before it runs the body, so this call raises \<^verbatim>\<open>TypeError\<close> for every value
  of \<^verbatim>\<open>raw_args\<close>, the default \<^verbatim>\<open>None\<close> included.
\<close>

definition parseargs :: "string list option \<Rightarrow> error + args" where
  "parseargs raw_args =
     Inl (TypeError ''parseargs() takes 0 positional arguments but 1 was given'')"

text \<open>
  \<^verbatim>\<open>main(raw_args)\<close>: the call of \<^verbatim>\<open>parseargs\<close> stands before the only
  \<^verbatim>\<open>try\<close> of \<^verbatim>\<open>main\<close>, so its exception leaves \<^verbatim>\<open>main\<close>; \<open>main_body\<close>
  is what follows the call.
\<close>

definition main ::
    "builtins \<Rightarrow> utils \<Rightarrow> b1td \<Rightarrow> fsys \<Rightarrow> string list option \<Rightarrow> run" where
  "main py u b fs raw_args =
     (case parseargs raw_args of
        Inl err \<Rightarrow> aborted err
      | Inr a \<Rightarrow> main_body py u b fs a)"

fun is_querytide :: "call \<Rightarrow> bool" where
  "is_querytide (Querytide qtype query) = True"
| "is_querytide c = False"

section \<open>A sample environment\<close>

text \<open>
  A small service, file system and set of options on which the theorems below are
  evaluated: hosts with records, one host whose query fails, and under a parent domain
  with one record a host without records and a host with a record of its own.
\<close>

definition sample_py :: builtins where
  "sample_py = \<lparr>str_lower = (\<lambda>s. s), str_rstrip = (\<lambda>s. s)\<rparr>"

definition sample_record :: threat_record where
  "sample_record =
     \<lparr>profile = ''IID'', tclass = ''Phishing'', imported = 1700000000, expiration = None\<rparr>"

definition sample_expiring :: threat_record where
  "sample_expiring =
     \<lparr>profile = ''AISCOMM'', tclass = ''MalwareC2'', imported = 1600000000,
      expiration = Some 1800000000\<rparr>"

definition sample_response :: "string \<Rightarrow> response" where
  "sample_response query =
     (if query = ''bad.example.org'' \<or> query = ''mail.example.com''
        then \<lparr>status_code = 200, threat = Some [sample_record]\<rparr>
      else if query = ''old.example.org''
        then \<lparr>status_code = 200, threat = Some [sample_record, sample_expiring]\<rparr>
      else if query = ''example.com'' then \<lparr>status_code = 200, threat = Some [sample_expiring]\<rparr>
      else if query = ''down.example.net'' then \<lparr>status_code = 500, threat = None\<rparr>
      else \<lparr>status_code = 200, threat = Some []\<rparr>)"

definition sample_b1td :: b1td where
  "sample_b1td =
     \<lparr>querytidestate = (\<lambda>qtype query.
          if query = ''old.example.org'' then \<lparr>status_code = 200, threat = None\<rparr>
          else sample_response query),
      querytide = (\<lambda>qtype query. sample_response query),
      dossierquery = (\<lambda>query qtype.
          \<lparr>dossier_status = 200,
           dossier_names = (if query = ''casino.example.net'' then [''Gambling''] else [])\<rparr>),
      return_codes_ok = [200, 201]\<rparr>"

definition sample_utils :: utils where
  "sample_utils =
     \<lparr>strip_host = (\<lambda>query.
          if query = ''www.example.com'' \<or> query = ''mail.example.com'' then ''example.com''
          else query),
      data_type = (\<lambda>query. if query = ''not an indicator'' then ''invalid'' else ''host''),
      opendb = (\<lambda>name. if name = ''tide.db'' then Some ''cursor'' else None),
      get_table = (\<lambda>db_cursor. Some ''iocs''),
      db_query = (\<lambda>db_cursor db_table qtype query.
          if query = ''bad.example.org''
          then [\<lparr>row_profile = ''IID'', row_class = ''Phishing''\<rparr>] else [])\<rparr>"

definition sample_fs :: fsys where
  "sample_fs =
     \<lparr>files = (\<lambda>name.
          if name = ''block_categories'' then Some [''gambling'' @ [CHR 0x0A]]
          else if name = ''country_codes'' then Some [''.ru'' @ [CHR 0x0A]]
          else if name = ''iocs.txt''
            then Some [''bad.example.org'' @ [CHR 0x0A], ''www.example.com'' @ [CHR 0x0A],
                       ''not an indicator'' @ [CHR 0x0A], ''site.ru'' @ [CHR 0x0A]]
          else None),
      can_move = (\<lambda>name. True),
      can_write = (\<lambda>name. True)\<rparr>"

text \<open>A file system without any file, and one with an empty \<^verbatim>\<open>block_categories\<close> only.\<close>

definition bare_fs :: fsys where
  "bare_fs = \<lparr>files = (\<lambda>name. None), can_move = (\<lambda>name. True), can_write = (\<lambda>name. True)\<rparr>"

definition one_list_fs :: fsys where
  "one_list_fs =
     \<lparr>files = (\<lambda>name. if name = ''block_categories'' then Some [] else None),
      can_move = (\<lambda>name. True), can_write = (\<lambda>name. True)\<rparr>"

definition sample_args :: args where
  "sample_args =
     \<lparr>arg_input = ''iocs.txt'', arg_output = None, arg_bogus = None, arg_active = False,
      arg_check_domains = True, arg_webcat = True, arg_local = Some ''tide.db''\<rparr>"

text \<open>The three maps of a run in full mode, for the same purpose.\<close>

definition sample_activethreats :: "(string \<times> active_entry) list" where
  "sample_activethreats =
     [(''bad.example.org'', Online (1, Profiles [''IID''], [''Phishing''], False)),
      (''old.example.org'', Online (0, Profiles [], [], False)),
      (''casino.example.net'', Online (0, Profiles [], [], False)),
      (''site.ru'', Online (0, Profiles [], [], False)),
      (''plain.example.net'', Online (0, Profiles [], [], False))]"

definition sample_totalthreats :: "(string \<times> tide_results) list" where
  "sample_totalthreats =
     [(''bad.example.org'', (1, Profiles [''IID''], [''Phishing''], Some 1700000000, None, False)),
      (''old.example.org'',
         (2, Profiles [''IID'', ''AISCOMM''], [''Phishing'', ''MalwareC2''], Some 1700000000,
          Some 1800000000, False)),
      (''casino.example.net'', (0, Profiles [], [], None, None, False)),
      (''site.ru'', (0, Profiles [], [], None, None, False)),
      (''plain.example.net'', (0, Profiles [], [], None, None, False))]"

definition sample_web_cats :: "(string \<times> string list) list" where
  "sample_web_cats = [(''casino.example.net'', [''Gambling''])]"

section \<open>Properties of the string operations\<close>

lemma startswith_iff: "startswith sub s \<longleftrightarrow> (\<exists>q. s = sub @ q)"
  by (induction sub s rule: startswith.induct) auto

lemma str_in_iff: "str_in sub s \<longleftrightarrow> (\<exists>p q. s = p @ sub @ q)"
proof (induction s)
  case Nil
  then show ?case by auto
next
  case (Cons d ds)
  show ?case
  proof
    assume "str_in sub (d # ds)"
    then consider "startswith sub (d # ds)" | "str_in sub ds" by auto
    then show "\<exists>p q. d # ds = p @ sub @ q"
    proof cases
      case 1
      then obtain q where "d # ds = sub @ q" by (auto simp: startswith_iff)
      then have "d # ds = [] @ sub @ q" by simp
      then show ?thesis by blast
    next
      case 2
      then obtain p q where "ds = p @ sub @ q" using Cons.IH by auto
      then have "d # ds = (d # p) @ sub @ q" by simp
      then show ?thesis by blast
    qed
  next
    assume "\<exists>p q. d # ds = p @ sub @ q"
    then obtain p q where pq: "d # ds = p @ sub @ q" by blast
    show "str_in sub (d # ds)"
    proof (cases p)
      case Nil
      with pq have "startswith sub (d # ds)" by (auto simp: startswith_iff)
      then show ?thesis by simp
    next
      case (Cons e p')
      with pq have "ds = p' @ sub @ q" by simp
      then have "str_in sub ds" using Cons.IH by blast
      then show ?thesis by simp
    qed
  qed
qed

section \<open>Properties of the evaluators\<close>

lemma webcat_inner_fst:
  "fst (webcat_inner py item cats) \<longleftrightarrow> (\<exists>cat \<in> set cats. cat_hit py (item, cat))"
  by (induction cats) (auto simp: cat_hit_def split: prod.splits)

lemma webcat_inner_snd:
  "snd (webcat_inner py item cats) =
     takeWhile (\<lambda>p. \<not> cat_hit py p) (map (Pair item) cats) @
     take 1 (dropWhile (\<lambda>p. \<not> cat_hit py p) (map (Pair item) cats))"
  by (induction cats) (auto simp: cat_hit_def split: prod.splits)

lemma webcat_inner_miss:
  assumes "\<not> fst (webcat_inner py item cats)"
  shows "snd (webcat_inner py item cats) = map (Pair item) cats"
    and "\<forall>p \<in> set (map (Pair item) cats). \<not> cat_hit py p"
  using assms by (induction cats) (auto simp: cat_hit_def split: prod.splits if_splits)

lemma webcat_outer_fst:
  "fst (webcat_outer py items cats) \<longleftrightarrow>
     (\<exists>item \<in> set items. \<exists>cat \<in> set cats. cat_hit py (item, cat))"
proof (induction items)
  case Nil
  then show ?case by simp
next
  case (Cons item items)
  have "fst (webcat_outer py (item # items) cats) \<longleftrightarrow>
          fst (webcat_inner py item cats) \<or> fst (webcat_outer py items cats)"
    by (auto split: prod.splits)
  then show ?case using Cons.IH by (auto simp: webcat_inner_fst)
qed

lemma takeWhile_append_all:
  "\<forall>x \<in> set xs. P x \<Longrightarrow> takeWhile P (xs @ ys) = xs @ takeWhile P ys"
  by (induction xs) auto

lemma dropWhile_append_all:
  "\<forall>x \<in> set xs. P x \<Longrightarrow> dropWhile P (xs @ ys) = dropWhile P ys"
  by (induction xs) auto

lemma takeWhile_append_hit:
  "\<exists>x \<in> set xs. \<not> P x \<Longrightarrow> takeWhile P (xs @ ys) = takeWhile P xs"
  by (induction xs) auto

lemma dropWhile_append_hit:
  "\<exists>x \<in> set xs. \<not> P x \<Longrightarrow> take 1 (dropWhile P (xs @ ys)) = take 1 (dropWhile P xs)"
  by (induction xs) auto

lemma webcat_outer_snd:
  "snd (webcat_outer py items cats) =
     takeWhile (\<lambda>p. \<not> cat_hit py p) (List.product items cats) @
     take 1 (dropWhile (\<lambda>p. \<not> cat_hit py p) (List.product items cats))"
proof (induction items)
  case Nil
  then show ?case by simp
next
  case (Cons item items)
  show ?case
  proof (cases "fst (webcat_inner py item cats)")
    case True
    then have ex: "\<exists>p \<in> set (map (Pair item) cats). \<not> \<not> cat_hit py p"
      by (auto simp: webcat_inner_fst)
    have "snd (webcat_outer py (item # items) cats) = snd (webcat_inner py item cats)"
      using True by (auto split: prod.splits)
    then show ?thesis
      using takeWhile_append_hit [OF ex] dropWhile_append_hit [OF ex]
      by (simp add: webcat_inner_snd)
  next
    case False
    note miss = webcat_inner_miss [OF False]
    have "snd (webcat_outer py (item # items) cats) =
            snd (webcat_inner py item cats) @ snd (webcat_outer py items cats)"
      using False by (auto split: prod.splits)
    then show ?thesis
      using takeWhile_append_all [OF miss(2)] dropWhile_append_all [OF miss(2)]
      by (simp add: miss(1) Cons.IH)
  qed
qed

lemma country_loop_iff:
  "country_loop domain cos \<longleftrightarrow> (\<exists>co \<in> set cos. str_in co domain)"
  by (induction cos) auto

lemma letter_table_facts:
  "distinct (map fst (zip ascii_uppercase ascii_lowercase))"
  "distinct (map snd (zip ascii_uppercase ascii_lowercase))"
  "set (map fst (zip ascii_uppercase ascii_lowercase)) \<inter>
   set (map snd (zip ascii_uppercase ascii_lowercase)) = {}"
  by (simp_all add: ascii_uppercase_def ascii_lowercase_def)

lemma table_fold_eq_iff:
  assumes dk: "distinct (map fst T)"
      and dv: "distinct (map snd T)"
      and dj: "set (map fst T) \<inter> set (map snd T) = {}"
  shows "(case map_of T c of None \<Rightarrow> c | Some l \<Rightarrow> l) =
         (case map_of T d of None \<Rightarrow> d | Some l \<Rightarrow> l) \<longleftrightarrow>
         (c = d \<or> (c, d) \<in> set T \<or> (d, c) \<in> set T)"
proof -
  have key: "map_of T x = Some y \<longleftrightarrow> (x, y) \<in> set T" for x y
    using dk by (simp add: map_of_eq_Some_iff)
  have nokey: "map_of T x = None \<longleftrightarrow> x \<notin> fst ` set T" for x
    by (simp add: map_of_eq_None_iff)
  have inj: "a = a'" if "(a, v) \<in> set T" "(a', v) \<in> set T" for a a' v
  proof -
    from dv have "inj_on snd (set T)" by (simp add: distinct_map)
    from inj_onD [OF this, of "(a, v)" "(a', v)"] that show ?thesis by simp
  qed
  have sep: "False" if "(a, v) \<in> set T" "(v, w) \<in> set T" for a v w
  proof -
    from that have "v \<in> set (map snd T)" "v \<in> set (map fst T)" by force+
    with dj show False by blast
  qed
  show ?thesis
  proof (cases "map_of T c")
    case cn: None
    show ?thesis
    proof (cases "map_of T d")
      case None
      from cn None have "c \<notin> fst ` set T" "d \<notin> fst ` set T" by (simp_all add: nokey)
      then have "(c, d) \<notin> set T" "(d, c) \<notin> set T" by force+
      with cn None show ?thesis by simp
    next
      case (Some l)
      then have dl: "(d, l) \<in> set T" by (simp add: key)
      from cn have "c \<notin> fst ` set T" by (simp add: nokey)
      with cn Some dl show ?thesis using key [of d c] by force
    qed
  next
    case cs: (Some l)
    then have cl: "(c, l) \<in> set T" by (simp add: key)
    show ?thesis
    proof (cases "map_of T d")
      case None
      then have "d \<notin> fst ` set T" by (simp add: nokey)
      with cs None cl show ?thesis using key [of c d] by force
    next
      case (Some l')
      then have dl: "(d, l') \<in> set T" by (simp add: key)
      have "l = l' \<longleftrightarrow> c = d"
        using inj [of c l d] cl dl cs Some by auto
      moreover have "(c, d) \<notin> set T" using sep [of c d l'] dl by blast
      moreover have "(d, c) \<notin> set T" using sep [of d c l] cl by blast
      ultimately show ?thesis using cs Some by simp
    qed
  qed
qed

lemma lower_char_eq_iff: "lower_char c = lower_char d \<longleftrightarrow> same_letter c d"
  unfolding lower_char_def same_letter_def
  by (rule table_fold_eq_iff [OF letter_table_facts])

lemma lower_ascii: "isascii s \<Longrightarrow> lower py s = map lower_char s"
  by (simp add: lower_def)

lemma map_lower_eq_iff:
  "map lower_char xs = map lower_char ys \<longleftrightarrow> list_all2 same_letter xs ys"
proof -
  have "map lower_char xs = map lower_char ys \<longleftrightarrow>
        list_all2 (\<lambda>x y. lower_char x = lower_char y) xs ys"
    by (induction xs arbitrary: ys) (auto simp: list_all2_Cons1 map_eq_Cons_conv)
  then show ?thesis by (simp add: lower_char_eq_iff)
qed

lemma folded_substring_iff:
  "(\<exists>p q. map lower_char cat = p @ map lower_char item @ q) \<longleftrightarrow>
   (\<exists>p w q. cat = p @ w @ q \<and> list_all2 same_letter item w)"
proof
  assume "\<exists>p q. map lower_char cat = p @ map lower_char item @ q"
  then obtain p q where "map lower_char cat = p @ map lower_char item @ q" by blast
  then obtain p' r where r: "cat = p' @ r" "map lower_char item @ q = map lower_char r"
    by (auto simp: map_eq_append_conv)
  from r(2) obtain w q' where w: "r = w @ q'" "map lower_char item = map lower_char w"
    by (auto simp: append_eq_map_conv)
  then have "list_all2 same_letter item w" by (simp add: map_lower_eq_iff)
  with r w show "\<exists>p w q. cat = p @ w @ q \<and> list_all2 same_letter item w" by blast
next
  assume "\<exists>p w q. cat = p @ w @ q \<and> list_all2 same_letter item w"
  then obtain p w q where c: "cat = p @ w @ q" and l: "list_all2 same_letter item w" by blast
  from l have "map lower_char item = map lower_char w" by (simp add: map_lower_eq_iff)
  then have "map lower_char w = map lower_char item" by simp
  with c have "map lower_char cat = map lower_char p @ map lower_char item @ map lower_char q"
    by simp
  then show "\<exists>p q. map lower_char cat = p @ map lower_char item @ q" by blast
qed

lemma checkwebcat_iff:
  "checkwebcat py webcats block_list \<longleftrightarrow>
      (\<exists>cats. webcats = Some cats \<and>
         (\<exists>item \<in> set block_list. \<exists>cat \<in> set cats.
            \<exists>p q. lower py cat = p @ lower py item @ q))"
  by (cases webcats)
     (auto simp: checkwebcat_def checkwebcat_run_def webcat_outer_fst cat_hit_def str_in_iff)

text \<open>
  C8. \<^verbatim>\<open>checkwebcat\<close> returns true exactly when some entry of the block list, lower-cased,
  is a contiguous substring of some category name, lower-cased. For ASCII entries and
  names this is to say that the name has a contiguous part that equals the entry when case
  is ignored. The substring tests it evaluates are those of the row-major enumeration of
  (entry, category) pairs up to and including the first hit and none after it. An empty
  category list gives false, and so does a missing one.
\<close>

theorem checkwebcat_spec:
  "(checkwebcat py webcats block_list \<longleftrightarrow>
      (\<exists>cats. webcats = Some cats \<and>
         (\<exists>item \<in> set block_list. \<exists>cat \<in> set cats.
            \<exists>p q. lower py cat = p @ lower py item @ q))) \<and>
   (list_all isascii block_list \<and> list_all isascii cats \<longrightarrow>
      (checkwebcat py (Some cats) block_list \<longleftrightarrow>
         (\<exists>item \<in> set block_list. \<exists>cat \<in> set cats.
            \<exists>p w q. cat = p @ w @ q \<and> list_all2 same_letter item w))) \<and>
   snd (checkwebcat_run py (Some cats) block_list) =
     takeWhile (\<lambda>p. \<not> cat_hit py p) (List.product block_list cats) @
     take 1 (dropWhile (\<lambda>p. \<not> cat_hit py p) (List.product block_list cats)) \<and>
   checkwebcat py (Some []) block_list = False \<and>
   checkwebcat py None block_list = False"
proof -
  have b: "snd (checkwebcat_run py (Some cats) block_list) =
     takeWhile (\<lambda>p. \<not> cat_hit py p) (List.product block_list cats) @
     take 1 (dropWhile (\<lambda>p. \<not> cat_hit py p) (List.product block_list cats))"
  proof (cases "cats = []")
    case True
    have "List.product block_list [] = ([] :: (string \<times> string) list)"
      by (induction block_list) auto
    with True show ?thesis by (simp add: checkwebcat_run_def)
  next
    case False
    then show ?thesis by (simp add: checkwebcat_run_def webcat_outer_snd)
  qed
  have c: "checkwebcat py (Some []) block_list = False" "checkwebcat py None block_list = False"
    by (simp_all add: checkwebcat_def checkwebcat_run_def)
  have a: "checkwebcat py (Some cats) block_list \<longleftrightarrow>
         (\<exists>item \<in> set block_list. \<exists>cat \<in> set cats.
            \<exists>p w q. cat = p @ w @ q \<and> list_all2 same_letter item w)"
    if asc: "list_all isascii block_list" "list_all isascii cats"
  proof -
    have "(\<exists>p q. lower py cat = p @ lower py item @ q) \<longleftrightarrow>
          (\<exists>p w q. cat = p @ w @ q \<and> list_all2 same_letter item w)"
      if "item \<in> set block_list" "cat \<in> set cats" for item cat
    proof -
      from that asc have "isascii item" "isascii cat" by (auto simp: list_all_iff)
      then show ?thesis by (simp add: lower_ascii folded_substring_iff)
    qed
    then show ?thesis unfolding checkwebcat_iff by auto
  qed
  from a b c checkwebcat_iff [of py webcats block_list] show ?thesis by blast
qed

theorem checkwebcat_spec_witness:
  "list_all isascii [''malware''] \<and> list_all isascii [''Malware-ish''] \<and>
   checkwebcat sample_py (Some [''Malware-ish'']) [''malware''] = True \<and>
   checkwebcat sample_py (Some [''Malware-ish'']) [''virus''] = False \<and>
   ''Malware-ish'' = [] @ ''Malware'' @ ''-ish'' \<and>
   list_all2 same_letter ''malware'' ''Malware'' \<and>
   snd (checkwebcat_run sample_py (Some [''News'', ''Malware-ish'', ''Sports''])
          [''virus'', ''malware'', ''sport'']) =
     [(''virus'', ''News''), (''virus'', ''Malware-ish''), (''virus'', ''Sports''),
      (''malware'', ''News''), (''malware'', ''Malware-ish'')]"
proof -
  have ev: "list_all isascii [''malware'']" "list_all isascii [''Malware-ish'']"
    "checkwebcat sample_py (Some [''Malware-ish'']) [''malware''] = True"
    "checkwebcat sample_py (Some [''Malware-ish'']) [''virus''] = False"
    "list_all2 same_letter ''malware'' ''Malware''"
    "snd (checkwebcat_run sample_py (Some [''News'', ''Malware-ish'', ''Sports''])
          [''virus'', ''malware'', ''sport'']) =
     [(''virus'', ''News''), (''virus'', ''Malware-ish''), (''virus'', ''Sports''),
      (''malware'', ''News''), (''malware'', ''Malware-ish'')]"
    by code_simp+
  from checkwebcat_spec [where py = sample_py and webcats = "Some [''Malware-ish'']"
         and block_list = "[''malware'']" and cats = "[''Malware-ish'']"] ev
  show ?thesis by simp
qed

section \<open>Properties of the adapters\<close>

declare checkactive.simps [simp del] checktide.simps [simp del]

lemma active_loop_count:
  "fst (active_loop ts (n, ps, cs)) = n + int (length ts)"
  by (induction ts arbitrary: n ps cs) auto

lemma tide_loop_count:
  "fst (tide_loop ts (n, ps, cs, la, le)) = n + int (length ts)"
  by (induction ts arbitrary: n ps cs la le) auto

lemma tide_loop_no_expiration:
  "\<forall>t \<in> set ts. expiration t = None \<Longrightarrow>
   snd (snd (snd (snd (tide_loop ts (n, ps, cs, la, le))))) = le"
  by (induction ts arbitrary: n ps cs la le) auto


lemma checkactive_failed:
  "status_code (querytidestate b qtype query) \<notin> set (return_codes_ok b) \<Longrightarrow>
   checkactive u query qtype b cd dc =
     ((-1, Message api_exception, [], dc), [Querytidestate qtype query])"
  by (simp add: checkactive.simps)

lemma checkactive_records:
  "status_code (querytidestate b qtype query) \<in> set (return_codes_ok b) \<Longrightarrow>
   get_threat (querytidestate b qtype query) \<noteq> [] \<Longrightarrow>
   checkactive u query qtype b cd dc =
     (let (totalthreats, profile_stats, class_stats) =
            active_loop (get_threat (querytidestate b qtype query)) (0, [], [])
      in ((totalthreats, Profiles (getkeys profile_stats), getkeys class_stats, dc),
          [Querytidestate qtype query]))"
  by (simp add: checkactive.simps)

lemma checkactive_empty_nofallback:
  "status_code (querytidestate b qtype query) \<in> set (return_codes_ok b) \<Longrightarrow>
   get_threat (querytidestate b qtype query) = [] \<Longrightarrow>
   \<not> cd \<or> strip_host u query = query \<Longrightarrow>
   checkactive u query qtype b cd dc =
     ((0, Profiles [], [], dc), [Querytidestate qtype query])"
  by (auto simp add: checkactive.simps)

lemma checkactive_empty_fallback:
  "status_code (querytidestate b qtype query) \<in> set (return_codes_ok b) \<Longrightarrow>
   get_threat (querytidestate b qtype query) = [] \<Longrightarrow>
   strip_host u query \<noteq> query \<Longrightarrow>
   checkactive u query qtype b True dc =
     (fst (checkactive u (strip_host u query) qtype b False True),
      Querytidestate qtype query # snd (checkactive u (strip_host u query) qtype b False True))"
  by (subst checkactive.simps) (simp add: Let_def split: prod.splits)

lemma checkactive_False_calls:
  "snd (checkactive u query qtype b False dc) = [Querytidestate qtype query]"
  by (simp add: checkactive.simps Let_def split: prod.splits)

lemma checkactive_False_dc:
  "snd (snd (snd (fst (checkactive u query qtype b False dc)))) = dc"
  by (simp add: checkactive.simps Let_def split: prod.splits)

lemma checktide_failed:
  "status_code (querytide b qtype query) \<notin> set (return_codes_ok b) \<Longrightarrow>
   checktide u query qtype b cd dc =
     ((-1, Message api_exception, [], None, None, dc), [Querytide qtype query])"
  by (simp add: checktide.simps)

lemma checktide_records:
  "status_code (querytide b qtype query) \<in> set (return_codes_ok b) \<Longrightarrow>
   get_threat (querytide b qtype query) \<noteq> [] \<Longrightarrow>
   checktide u query qtype b cd dc =
     (let (totalthreats, profile_stats, class_stats, last_available, last_expiration) =
            tide_loop (get_threat (querytide b qtype query)) (0, [], [], epoch, epoch)
      in (tide_finish
            (totalthreats, Profiles (getkeys profile_stats), getkeys class_stats,
             Some last_available, Some last_expiration, dc),
          [Querytide qtype query]))"
  by (simp add: checktide.simps)

lemma checktide_empty_nofallback:
  "status_code (querytide b qtype query) \<in> set (return_codes_ok b) \<Longrightarrow>
   get_threat (querytide b qtype query) = [] \<Longrightarrow>
   \<not> cd \<or> strip_host u query = query \<Longrightarrow>
   checktide u query qtype b cd dc =
     ((0, Profiles [], [], None, None, dc), [Querytide qtype query])"
  by (auto simp add: checktide.simps)

lemma checktide_empty_fallback:
  "status_code (querytide b qtype query) \<in> set (return_codes_ok b) \<Longrightarrow>
   get_threat (querytide b qtype query) = [] \<Longrightarrow>
   strip_host u query \<noteq> query \<Longrightarrow>
   checktide u query qtype b True dc =
     (tide_finish (fst (checktide u (strip_host u query) qtype b False True)),
      Querytide qtype query # snd (checktide u (strip_host u query) qtype b False True))"
  by (subst checktide.simps) (simp add: Let_def split: prod.splits)

lemma checktide_False_calls:
  "snd (checktide u query qtype b False dc) = [Querytide qtype query]"
  by (simp add: checktide.simps Let_def split: prod.splits)

lemma tide_finish_idem: "tide_finish (tide_finish r) = tide_finish r"
  by (cases r) auto

lemma checktide_finished:
  "tide_finish (fst (checktide u query qtype b cd dc)) = fst (checktide u query qtype b cd dc)"
  apply (induction u query qtype b cd dc rule: checktide.induct)
  apply (subst (1 2) checktide.simps)
  apply (simp add: Let_def tide_finish_idem split: prod.splits del: tide_finish.simps)
  done

lemma checkactive_any_failed:
  assumes "\<exists>c \<in> set (snd (checkactive u query qtype b cd dc)). call_failed b c"
  shows "active_count (fst (checkactive u query qtype b cd dc)) = -1 \<and>
         active_profiles (fst (checkactive u query qtype b cd dc)) = Message api_exception"
proof (cases "status_code (querytidestate b qtype query) \<in> set (return_codes_ok b)")
  case False
  then show ?thesis by (simp add: checkactive_failed)
next
  case ok: True
  show ?thesis
  proof (cases "get_threat (querytidestate b qtype query) = []")
    case False
    with ok assms show ?thesis
      by (simp add: checkactive_records call_failed_def split: prod.splits)
  next
    case empty: True
    show ?thesis
    proof (cases "cd \<and> strip_host u query \<noteq> query")
      case False
      then have "\<not> cd \<or> strip_host u query = query" by blast
      from checkactive_empty_nofallback [OF ok empty this] assms ok show ?thesis
        by (simp add: call_failed_def)
    next
      case True
      then have cd: "cd = True" and ne: "strip_host u query \<noteq> query" by simp_all
      let ?d = "strip_host u query"
      from assms ok have "call_failed b (Querytidestate qtype ?d)"
        unfolding cd checkactive_empty_fallback [OF ok empty ne]
        by (simp add: checkactive_False_calls call_failed_def)
      then have "status_code (querytidestate b qtype ?d) \<notin> set (return_codes_ok b)"
        by (simp add: call_failed_def)
      then show ?thesis
        unfolding cd checkactive_empty_fallback [OF ok empty ne]
        by (simp add: checkactive_failed)
    qed
  qed
qed

lemma checktide_any_failed:
  assumes "\<exists>c \<in> set (snd (checktide u query qtype b cd dc)). call_failed b c"
  shows "tide_count (fst (checktide u query qtype b cd dc)) = -1 \<and>
         tide_profiles (fst (checktide u query qtype b cd dc)) = Message api_exception"
proof (cases "status_code (querytide b qtype query) \<in> set (return_codes_ok b)")
  case False
  then show ?thesis by (simp add: checktide_failed)
next
  case ok: True
  show ?thesis
  proof (cases "get_threat (querytide b qtype query) = []")
    case False
    with ok assms show ?thesis
      by (simp add: checktide_records call_failed_def split: prod.splits)
  next
    case empty: True
    show ?thesis
    proof (cases "cd \<and> strip_host u query \<noteq> query")
      case False
      then have "\<not> cd \<or> strip_host u query = query" by blast
      from checktide_empty_nofallback [OF ok empty this] assms ok show ?thesis
        by (simp add: call_failed_def)
    next
      case True
      then have cd: "cd = True" and ne: "strip_host u query \<noteq> query" by simp_all
      let ?d = "strip_host u query"
      from assms ok have "call_failed b (Querytide qtype ?d)"
        unfolding cd checktide_empty_fallback [OF ok empty ne]
        by (simp add: checktide_False_calls call_failed_def)
      then have "status_code (querytide b qtype ?d) \<notin> set (return_codes_ok b)"
        by (simp add: call_failed_def)
      then show ?thesis
        unfolding cd checktide_empty_fallback [OF ok empty ne]
        by (simp add: checktide_failed)
    qed
  qed
qed

text \<open>
  C2. When the response to the query of an adapter has a status outside the success codes,
  \<^verbatim>\<open>checkactive\<close> and \<^verbatim>\<open>checktide\<close> return the count \<open>-1\<close> and the profile
  message \<^verbatim>\<open>"API Exception Occurred"\<close>. The same holds when any call the adapter made,
  the one on the parent domain included, failed. Such a result differs from the outcome for
  no records, which has count \<open>0\<close> and the empty profile list.
\<close>

theorem failed_query_sentinel:
  "(status_code (querytidestate b qtype query) \<notin> set (return_codes_ok b) \<longrightarrow>
      fst (checkactive u query qtype b cd dc) = (-1, Message api_exception, [], dc)) \<and>
   (status_code (querytide b qtype query) \<notin> set (return_codes_ok b) \<longrightarrow>
      fst (checktide u query qtype b cd dc) = (-1, Message api_exception, [], None, None, dc)) \<and>
   ((\<exists>c \<in> set (snd (checkactive u query qtype b cd dc)). call_failed b c) \<longrightarrow>
      active_count (fst (checkactive u query qtype b cd dc)) = -1 \<and>
      active_profiles (fst (checkactive u query qtype b cd dc)) = Message api_exception \<and>
      active_count (fst (checkactive u query qtype b cd dc)) \<noteq> 0 \<and>
      active_profiles (fst (checkactive u query qtype b cd dc)) \<noteq> Profiles []) \<and>
   ((\<exists>c \<in> set (snd (checktide u query qtype b cd dc)). call_failed b c) \<longrightarrow>
      tide_count (fst (checktide u query qtype b cd dc)) = -1 \<and>
      tide_profiles (fst (checktide u query qtype b cd dc)) = Message api_exception \<and>
      tide_count (fst (checktide u query qtype b cd dc)) \<noteq> 0 \<and>
      tide_profiles (fst (checktide u query qtype b cd dc)) \<noteq> Profiles [])"
  using checkactive_any_failed [of u query qtype b cd dc]
        checktide_any_failed [of u query qtype b cd dc]
  by (simp add: checkactive_failed checktide_failed)


lemma checkactive_calls_cases:
  "snd (checkactive u query qtype b cd dc) = [Querytidestate qtype query] \<or>
   (cd \<and> snd (checkactive u query qtype b cd dc) =
      [Querytidestate qtype query, Querytidestate qtype (strip_host u query)])"
proof (cases "status_code (querytidestate b qtype query) \<in> set (return_codes_ok b)")
  case False
  then show ?thesis by (simp add: checkactive_failed)
next
  case ok: True
  show ?thesis
  proof (cases "get_threat (querytidestate b qtype query) = []")
    case False
    with ok show ?thesis by (simp add: checkactive_records split: prod.splits)
  next
    case empty: True
    show ?thesis
    proof (cases "cd \<and> strip_host u query \<noteq> query")
      case False
      then have "\<not> cd \<or> strip_host u query = query" by blast
      from checkactive_empty_nofallback [OF ok empty this] show ?thesis by simp
    next
      case True
      then have cd: "cd = True" and ne: "strip_host u query \<noteq> query" by simp_all
      show ?thesis
        unfolding cd checkactive_empty_fallback [OF ok empty ne]
        by (simp add: checkactive_False_calls)
    qed
  qed
qed

lemma checktide_calls_cases:
  "snd (checktide u query qtype b cd dc) = [Querytide qtype query] \<or>
   (cd \<and> snd (checktide u query qtype b cd dc) =
      [Querytide qtype query, Querytide qtype (strip_host u query)])"
proof (cases "status_code (querytide b qtype query) \<in> set (return_codes_ok b)")
  case False
  then show ?thesis by (simp add: checktide_failed)
next
  case ok: True
  show ?thesis
  proof (cases "get_threat (querytide b qtype query) = []")
    case False
    with ok show ?thesis by (simp add: checktide_records split: prod.splits)
  next
    case empty: True
    show ?thesis
    proof (cases "cd \<and> strip_host u query \<noteq> query")
      case False
      then have "\<not> cd \<or> strip_host u query = query" by blast
      from checktide_empty_nofallback [OF ok empty this] show ?thesis by simp
    next
      case True
      then have cd: "cd = True" and ne: "strip_host u query \<noteq> query" by simp_all
      show ?thesis
        unfolding cd checktide_empty_fallback [OF ok empty ne]
        by (simp add: checktide_False_calls)
    qed
  qed
qed

text \<open>
  C3. Every invocation of an adapter makes exactly one call to the service, so the calls
  count the invocations. With the fallback disabled there is one call. With it enabled
  there is the call for the indicator and at most one more, for the parent domain: the
  fallback invocation never starts a further one.
\<close>

theorem fallback_at_most_once:
  "snd (checkactive u query qtype b False dc) = [Querytidestate qtype query] \<and>
   snd (checktide u query qtype b False dc) = [Querytide qtype query] \<and>
   (snd (checkactive u query qtype b True dc) = [Querytidestate qtype query] \<or>
    snd (checkactive u query qtype b True dc) =
      [Querytidestate qtype query, Querytidestate qtype (strip_host u query)]) \<and>
   (snd (checktide u query qtype b True dc) = [Querytide qtype query] \<or>
    snd (checktide u query qtype b True dc) =
      [Querytide qtype query, Querytide qtype (strip_host u query)]) \<and>
   length (snd (checkactive u query qtype b cd dc)) \<le> 2 \<and>
   length (snd (checktide u query qtype b cd dc)) \<le> 2"
proof -
  have "length (snd (checkactive u query qtype b cd dc)) \<le> 2"
    using checkactive_calls_cases [of u query qtype b cd dc] by auto
  moreover have "length (snd (checktide u query qtype b cd dc)) \<le> 2"
    using checktide_calls_cases [of u query qtype b cd dc] by auto
  ultimately show ?thesis
    using checkactive_calls_cases [of u query qtype b True dc]
          checktide_calls_cases [of u query qtype b True dc]
    by (simp add: checkactive_False_calls checktide_False_calls)
qed

lemma checkactive_False_domain_checked:
  "active_domain_checked (fst (checkactive u query qtype b False dc)) = dc"
  by (simp add: checkactive.simps Let_def split: prod.splits)

lemma checktide_False_domain_checked:
  "tide_domain_checked (fst (checktide u query qtype b False dc)) = dc"
  by (simp add: checktide.simps Let_def split: prod.splits)

lemma tide_domain_checked_finish [simp]:
  "tide_domain_checked (tide_finish r) = tide_domain_checked r"
  by (cases r) simp

text \<open>
  C4. Let the direct query succeed with no records and the fallback be enabled. If the
  stripped parent domain differs from the indicator, the result is that of the adapter on
  the parent domain and has \<^verbatim>\<open>domain_checked\<close> true. If it equals the indicator, the
  single call is the direct one and the result stays count \<open>0\<close> with
  \<^verbatim>\<open>domain_checked\<close> false.
\<close>

theorem fallback_domain_checked:
  "(status_code (querytidestate b qtype query) \<in> set (return_codes_ok b) \<and>
    get_threat (querytidestate b qtype query) = [] \<longrightarrow>
      (strip_host u query \<noteq> query \<longrightarrow>
         active_domain_checked (fst (checkactive u query qtype b True dc)) = True \<and>
         fst (checkactive u query qtype b True dc) =
           fst (checkactive u (strip_host u query) qtype b False True) \<and>
         snd (checkactive u query qtype b True dc) =
           [Querytidestate qtype query, Querytidestate qtype (strip_host u query)]) \<and>
      (strip_host u query = query \<longrightarrow>
         checkactive u query qtype b True False =
           ((0, Profiles [], [], False), [Querytidestate qtype query]))) \<and>
   (status_code (querytide b qtype query) \<in> set (return_codes_ok b) \<and>
    get_threat (querytide b qtype query) = [] \<longrightarrow>
      (strip_host u query \<noteq> query \<longrightarrow>
         tide_domain_checked (fst (checktide u query qtype b True dc)) = True \<and>
         fst (checktide u query qtype b True dc) =
           fst (checktide u (strip_host u query) qtype b False True) \<and>
         snd (checktide u query qtype b True dc) =
           [Querytide qtype query, Querytide qtype (strip_host u query)]) \<and>
      (strip_host u query = query \<longrightarrow>
         checktide u query qtype b True False =
           ((0, Profiles [], [], None, None, False), [Querytide qtype query])))"
proof -
  have a: "active_domain_checked (fst (checkactive u query qtype b True dc)) = True \<and>
         fst (checkactive u query qtype b True dc) =
           fst (checkactive u (strip_host u query) qtype b False True) \<and>
         snd (checkactive u query qtype b True dc) =
           [Querytidestate qtype query, Querytidestate qtype (strip_host u query)]"
    if "status_code (querytidestate b qtype query) \<in> set (return_codes_ok b)"
      and "get_threat (querytidestate b qtype query) = []"
      and "strip_host u query \<noteq> query"
    using checkactive_empty_fallback [OF that]
    by (simp add: checkactive_False_domain_checked checkactive_False_calls)
  have t: "tide_domain_checked (fst (checktide u query qtype b True dc)) = True \<and>
         fst (checktide u query qtype b True dc) =
           fst (checktide u (strip_host u query) qtype b False True) \<and>
         snd (checktide u query qtype b True dc) =
           [Querytide qtype query, Querytide qtype (strip_host u query)]"
    if "status_code (querytide b qtype query) \<in> set (return_codes_ok b)"
      and "get_threat (querytide b qtype query) = []"
      and "strip_host u query \<noteq> query"
    using checktide_empty_fallback [OF that]
    by (simp add: checktide_False_domain_checked checktide_False_calls checktide_finished)
  show ?thesis
    using a t
    by (auto simp: checkactive_empty_nofallback checktide_empty_nofallback)
qed

text \<open>
  C6. For the records of one successful adapter call (the fallback does not fire), the
  count of the result is the number of records; for no records the result is count \<open>0\<close>,
  no profiles, no classes and, for \<^verbatim>\<open>checktide\<close>, both dates absent.
\<close>

theorem aggregate_count:
  "(status_code (querytidestate b qtype query) \<in> set (return_codes_ok b) \<and>
    (get_threat (querytidestate b qtype query) \<noteq> [] \<or> \<not> cd \<or> strip_host u query = query)
    \<longrightarrow>
      active_count (fst (checkactive u query qtype b cd dc)) =
        int (length (get_threat (querytidestate b qtype query))) \<and>
      (get_threat (querytidestate b qtype query) = [] \<longrightarrow>
         fst (checkactive u query qtype b cd dc) = (0, Profiles [], [], dc))) \<and>
   (status_code (querytide b qtype query) \<in> set (return_codes_ok b) \<and>
    (get_threat (querytide b qtype query) \<noteq> [] \<or> \<not> cd \<or> strip_host u query = query)
    \<longrightarrow>
      tide_count (fst (checktide u query qtype b cd dc)) =
        int (length (get_threat (querytide b qtype query))) \<and>
      (get_threat (querytide b qtype query) = [] \<longrightarrow>
         fst (checktide u query qtype b cd dc) = (0, Profiles [], [], None, None, dc)))"
proof -
  have a: "active_count (fst (checkactive u query qtype b cd dc)) =
        int (length (get_threat (querytidestate b qtype query)))"
    if "status_code (querytidestate b qtype query) \<in> set (return_codes_ok b)"
      and "get_threat (querytidestate b qtype query) \<noteq> []"
    using active_loop_count [of "get_threat (querytidestate b qtype query)" 0 "[]" "[]"]
    by (auto simp: checkactive_records [OF that] split: prod.splits)
  have t: "tide_count (fst (checktide u query qtype b cd dc)) =
        int (length (get_threat (querytide b qtype query)))"
    if "status_code (querytide b qtype query) \<in> set (return_codes_ok b)"
      and "get_threat (querytide b qtype query) \<noteq> []"
    using tide_loop_count [of "get_threat (querytide b qtype query)" 0 "[]" "[]" epoch epoch]
    by (auto simp: checktide_records [OF that] split: prod.splits)
  have a0: "fst (checkactive u query qtype b cd dc) = (0, Profiles [], [], dc)"
    if "status_code (querytidestate b qtype query) \<in> set (return_codes_ok b)"
      and "get_threat (querytidestate b qtype query) = []"
      and "\<not> cd \<or> strip_host u query = query"
    using checkactive_empty_nofallback [OF that] by simp
  have t0: "fst (checktide u query qtype b cd dc) = (0, Profiles [], [], None, None, dc)"
    if "status_code (querytide b qtype query) \<in> set (return_codes_ok b)"
      and "get_threat (querytide b qtype query) = []"
      and "\<not> cd \<or> strip_host u query = query"
    using checktide_empty_nofallback [OF that] by simp
  have A: "active_count (fst (checkactive u query qtype b cd dc)) =
        int (length (get_threat (querytidestate b qtype query))) \<and>
      (get_threat (querytidestate b qtype query) = [] \<longrightarrow>
         fst (checkactive u query qtype b cd dc) = (0, Profiles [], [], dc))"
    if ok: "status_code (querytidestate b qtype query) \<in> set (return_codes_ok b)"
      and nf: "get_threat (querytidestate b qtype query) \<noteq> [] \<or> \<not> cd \<or>
               strip_host u query = query"
  proof (cases "get_threat (querytidestate b qtype query) = []")
    case True
    with nf have "\<not> cd \<or> strip_host u query = query" by blast
    from a0 [OF ok True this] True show ?thesis by simp
  next
    case False
    with a [OF ok False] show ?thesis by simp
  qed
  have T: "tide_count (fst (checktide u query qtype b cd dc)) =
        int (length (get_threat (querytide b qtype query))) \<and>
      (get_threat (querytide b qtype query) = [] \<longrightarrow>
         fst (checktide u query qtype b cd dc) = (0, Profiles [], [], None, None, dc))"
    if ok: "status_code (querytide b qtype query) \<in> set (return_codes_ok b)"
      and nf: "get_threat (querytide b qtype query) \<noteq> [] \<or> \<not> cd \<or>
               strip_host u query = query"
  proof (cases "get_threat (querytide b qtype query) = []")
    case True
    with nf have "\<not> cd \<or> strip_host u query = query" by blast
    from t0 [OF ok True this] True show ?thesis by simp
  next
    case False
    with t [OF ok False] show ?thesis by simp
  qed
  from A T show ?thesis by blast
qed

lemma tide_loop_dates:
  "tide_loop ts (n, ps, cs, la, le) = (n', ps', cs', la', le') \<Longrightarrow>
   (\<forall>t \<in> set ts. expiration t = None) \<Longrightarrow> le' = le"
  using tide_loop_no_expiration [of ts n ps cs la le] by simp

lemma checktide_False_no_expiration:
  assumes "\<forall>t \<in> set (get_threat (querytide b qtype query)). expiration t = None"
  shows "tide_last_expiration (fst (checktide u query qtype b False dc)) = None"
  using assms
  by (auto simp: checktide.simps Let_def split: prod.splits dest: tide_loop_dates)

lemma checktide_False_no_records:
  assumes "get_threat (querytide b qtype query) = []"
  shows "tide_last_available (fst (checktide u query qtype b False dc)) = None"
  using assms by (simp add: checktide.simps Let_def)

lemma tide_finish_not_seed:
  "tide_last_available (tide_finish r) \<noteq> Some epoch \<and>
   tide_last_expiration (tide_finish r) \<noteq> Some epoch"
  by (cases r) simp

lemma tide_dates_finish:
  "tide_last_expiration r = None \<Longrightarrow> tide_last_expiration (tide_finish r) = None"
  "tide_last_available r = None \<Longrightarrow> tide_last_available (tide_finish r) = None"
  by (cases r; simp)+

lemma checktide_direct_dates:
  assumes "\<not> (cd \<and> status_code (querytide b qtype query) \<in> set (return_codes_ok b) \<and>
              get_threat (querytide b qtype query) = [] \<and> strip_host u query \<noteq> query)"
  shows "snd (checktide u query qtype b cd dc) = [Querytide qtype query]"
    and "(\<forall>t \<in> set (tide_records_read b [Querytide qtype query]). expiration t = None) \<Longrightarrow>
         tide_last_expiration (fst (checktide u query qtype b cd dc)) = None"
    and "tide_records_read b [Querytide qtype query] = [] \<Longrightarrow>
         tide_last_available (fst (checktide u query qtype b cd dc)) = None"
proof -
  show "snd (checktide u query qtype b cd dc) = [Querytide qtype query]"
    using assms checktide_calls_cases [of u query qtype b cd dc]
    by (subst checktide.simps) (auto simp: Let_def split: prod.splits)
  show "tide_last_expiration (fst (checktide u query qtype b cd dc)) = None"
    if "\<forall>t \<in> set (tide_records_read b [Querytide qtype query]). expiration t = None"
    using assms that
    by (subst checktide.simps)
       (auto simp: Let_def tide_records_read_def split: prod.splits dest: tide_loop_dates)
  show "tide_last_available (fst (checktide u query qtype b cd dc)) = None"
    if "tide_records_read b [Querytide qtype query] = []"
    using assms that
    by (subst checktide.simps) (auto simp: Let_def tide_records_read_def)
qed

text \<open>
  C7. \<^verbatim>\<open>checktide\<close> never returns the seed of its accumulators as a date. If no record
  that it read carries an expiration, the last expiration is absent; if it read no record
  at all, the last imported date is absent.
\<close>

theorem tide_dates_absent:
  "tide_last_expiration (fst (checktide u query qtype b cd dc)) \<noteq> Some epoch \<and>
   tide_last_available (fst (checktide u query qtype b cd dc)) \<noteq> Some epoch \<and>
   ((\<forall>t \<in> set (tide_records_read b (snd (checktide u query qtype b cd dc))).
        expiration t = None) \<longrightarrow>
      tide_last_expiration (fst (checktide u query qtype b cd dc)) = None) \<and>
   (tide_records_read b (snd (checktide u query qtype b cd dc)) = [] \<longrightarrow>
      tide_last_available (fst (checktide u query qtype b cd dc)) = None)"
proof -
  let ?r = "fst (checktide u query qtype b cd dc)"
  let ?calls = "snd (checktide u query qtype b cd dc)"
  let ?d = "strip_host u query"
  have seed: "tide_last_expiration ?r \<noteq> Some epoch \<and> tide_last_available ?r \<noteq> Some epoch"
    using tide_finish_not_seed [of ?r] by (simp add: checktide_finished)
  have rest: "((\<forall>t \<in> set (tide_records_read b ?calls). expiration t = None) \<longrightarrow>
                 tide_last_expiration ?r = None) \<and>
              (tide_records_read b ?calls = [] \<longrightarrow> tide_last_available ?r = None)"
  proof (cases "cd \<and> status_code (querytide b qtype query) \<in> set (return_codes_ok b) \<and>
                get_threat (querytide b qtype query) = [] \<and> ?d \<noteq> query")
    case False
    from checktide_direct_dates [OF False] show ?thesis by simp
  next
    case True
    then have cd: "cd = True"
      and ok: "status_code (querytide b qtype query) \<in> set (return_codes_ok b)"
      and empty: "get_threat (querytide b qtype query) = []"
      and ne: "?d \<noteq> query" by simp_all
    have inner: "\<not> (False \<and> status_code (querytide b qtype ?d) \<in> set (return_codes_ok b) \<and>
              get_threat (querytide b qtype ?d) = [] \<and> strip_host u ?d \<noteq> ?d)" by simp
    note fb = checktide_empty_fallback [OF ok empty ne, of dc]
    have calls: "?calls = [Querytide qtype query, Querytide qtype ?d]"
      unfolding cd fb by (simp add: checktide_False_calls)
    have read: "tide_records_read b ?calls = tide_records_read b [Querytide qtype ?d]"
      unfolding calls using ok empty by (simp add: tide_records_read_def)
    have res: "?r = tide_finish (fst (checktide u ?d qtype b False True))"
      unfolding cd fb by simp
    show ?thesis
      unfolding read res
      using checktide_direct_dates(2,3) [OF inner, where dc = True]
      by (auto intro: tide_dates_finish)
  qed
  from seed rest show ?thesis by blast
qed

subsection \<open>The adapter theorems on the sample environment\<close>

lemmas sample_defs =
  sample_b1td_def sample_response_def sample_utils_def sample_record_def sample_expiring_def
  get_threat_def Let_def

theorem failed_query_sentinel_witness:
  "status_code (querytidestate sample_b1td ''host'' ''down.example.net'')
     \<notin> set (return_codes_ok sample_b1td) \<and>
   fst (checkactive sample_utils ''down.example.net'' ''host'' sample_b1td True False) =
     (-1, Message ''API Exception Occurred'', [], False) \<and>
   fst (checktide sample_utils ''down.example.net'' ''host'' sample_b1td True False) =
     (-1, Message ''API Exception Occurred'', [], None, None, False) \<and>
   active_count (fst (checkactive sample_utils ''down.example.net'' ''host'' sample_b1td
     True False)) \<noteq> 0"
  using failed_query_sentinel [where b = sample_b1td and qtype = "''host''"
          and query = "''down.example.net''" and u = sample_utils and cd = True and dc = False]
  by (simp add: sample_defs call_failed_def checkactive.simps checktide.simps
        api_exception_def)

theorem fallback_at_most_once_witness:
  "snd (checkactive sample_utils ''www.example.com'' ''host'' sample_b1td False False) =
     [Querytidestate ''host'' ''www.example.com''] \<and>
   snd (checkactive sample_utils ''www.example.com'' ''host'' sample_b1td True False) =
     [Querytidestate ''host'' ''www.example.com'', Querytidestate ''host'' ''example.com''] \<and>
   snd (checktide sample_utils ''www.example.com'' ''host'' sample_b1td True False) =
     [Querytide ''host'' ''www.example.com'', Querytide ''host'' ''example.com''] \<and>
   length (snd (checktide sample_utils ''www.example.com'' ''host'' sample_b1td True False)) \<le> 2"
  using fallback_at_most_once [where b = sample_b1td and qtype = "''host''"
          and query = "''www.example.com''" and u = sample_utils and cd = True and dc = False]
  by (simp add: sample_defs checkactive.simps checktide.simps)

theorem fallback_domain_checked_witness:
  "status_code (querytidestate sample_b1td ''host'' ''www.example.com'')
     \<in> set (return_codes_ok sample_b1td) \<and>
   get_threat (querytidestate sample_b1td ''host'' ''www.example.com'') = [] \<and>
   strip_host sample_utils ''www.example.com'' \<noteq> ''www.example.com'' \<and>
   strip_host sample_utils ''site.ru'' = ''site.ru'' \<and>
   fst (checkactive sample_utils ''www.example.com'' ''host'' sample_b1td True False) =
     (1, Profiles [''AISCOMM''], [''MalwareC2''], True) \<and>
   fst (checktide sample_utils ''www.example.com'' ''host'' sample_b1td True False) =
     (1, Profiles [''AISCOMM''], [''MalwareC2''], Some 1600000000, Some 1800000000, True) \<and>
   checkactive sample_utils ''site.ru'' ''host'' sample_b1td True False =
     ((0, Profiles [], [], False), [Querytidestate ''host'' ''site.ru'']) \<and>
   checktide sample_utils ''site.ru'' ''host'' sample_b1td True False =
     ((0, Profiles [], [], None, None, False), [Querytide ''host'' ''site.ru''])"
  using fallback_domain_checked [where b = sample_b1td and qtype = "''host''"
          and query = "''www.example.com''" and u = sample_utils and dc = False]
        fallback_domain_checked [where b = sample_b1td and qtype = "''host''"
          and query = "''site.ru''" and u = sample_utils and dc = False]
  by (simp add: sample_defs checkactive.simps checktide.simps counter_incr_def getkeys_def
        most_recent_def epoch_def)

theorem aggregate_count_witness:
  "status_code (querytide sample_b1td ''host'' ''old.example.org'')
     \<in> set (return_codes_ok sample_b1td) \<and>
   length (get_threat (querytide sample_b1td ''host'' ''old.example.org'')) = 2 \<and>
   tide_count (fst (checktide sample_utils ''old.example.org'' ''host'' sample_b1td True False)) = 2 \<and>
   active_count (fst (checkactive sample_utils ''bad.example.org'' ''host'' sample_b1td
     True False)) = 1 \<and>
   fst (checkactive sample_utils ''old.example.org'' ''host'' sample_b1td True False) =
     (0, Profiles [], [], False) \<and>
   fst (checktide sample_utils ''site.ru'' ''host'' sample_b1td False False) =
     (0, Profiles [], [], None, None, False)"
  using aggregate_count [where b = sample_b1td and qtype = "''host''"
          and query = "''old.example.org''" and u = sample_utils and cd = True and dc = False]
        aggregate_count [where b = sample_b1td and qtype = "''host''"
          and query = "''bad.example.org''" and u = sample_utils and cd = True and dc = False]
        aggregate_count [where b = sample_b1td and qtype = "''host''"
          and query = "''site.ru''" and u = sample_utils and cd = False and dc = False]
  by (simp add: sample_defs)

theorem tide_dates_absent_witness:
  "map expiration (tide_records_read sample_b1td
     (snd (checktide sample_utils ''mail.example.com'' ''host'' sample_b1td True False))) =
     [None] \<and>
   map expiration (get_threat (querytide sample_b1td ''host''
     (strip_host sample_utils ''mail.example.com''))) = [Some 1800000000] \<and>
   fst (checktide sample_utils ''mail.example.com'' ''host'' sample_b1td True False) =
     (1, Profiles [''IID''], [''Phishing''], Some 1700000000, None, False) \<and>
   tide_records_read sample_b1td
     (snd (checktide sample_utils ''site.ru'' ''host'' sample_b1td True False)) = [] \<and>
   tide_last_available (fst (checktide sample_utils ''site.ru'' ''host'' sample_b1td
     True False)) = None \<and>
   tide_records_read sample_b1td
     (snd (checktide sample_utils ''down.example.net'' ''host'' sample_b1td True False)) = [] \<and>
   fst (checktide sample_utils ''down.example.net'' ''host'' sample_b1td True False) =
     (-1, Message api_exception, [], None, None, False)"
  using tide_dates_absent [where b = sample_b1td and qtype = "''host''"
          and query = "''mail.example.com''" and u = sample_utils and cd = True and dc = False]
        tide_dates_absent [where b = sample_b1td and qtype = "''host''"
          and query = "''site.ru''" and u = sample_utils and cd = True and dc = False]
        tide_dates_absent [where b = sample_b1td and qtype = "''host''"
          and query = "''down.example.net''" and u = sample_utils and cd = True and dc = False]
  by (simp add: sample_defs checktide.simps counter_incr_def getkeys_def
        most_recent_def epoch_def tide_records_read_def)

section \<open>Properties of the report\<close>

lemma full_rows_lines:
  "full_rows py acts tot web bl cc tf (wa, wt, out, csv) = Inr (wa', wt', out', csv') \<Longrightarrow>
   out' = (if tf then out else out @ map (full_row py tot web bl cc) acts) \<and>
   csv' = (if tf then csv @ map (full_row py tot web bl cc) acts else csv)"
proof (induction acts arbitrary: wa wt out csv)
  case Nil
  then show ?case by simp
next
  case (Cons p acts)
  obtain item e where p: "p = (item, e)" by (cases p)
  from Cons.prems p obtain t where t: "map_of tot item = Some t"
    by (auto split: option.splits)
  from Cons.prems p t have
    "full_rows py acts tot web bl cc tf
       ((if entry0 e > 0 then wa + 1 else wa), (if tide_count t > 0 then wt + 1 else wt),
        (if tf then out else out @ [full_row py tot web bl cc p]),
        (if tf then csv @ [full_row py tot web bl cc p] else csv)) = Inr (wa', wt', out', csv')"
    by (auto simp: Let_def full_row_def split: if_splits)
  from Cons.IH [OF this] show ?case by simp
qed

lemma is_row_full_row: "is_row (full_row py tot web bl cc p)"
  by (simp add: full_row_def Let_def)

lemma filter_is_row_full: "filter is_row (map (full_row py tot web bl cc) acts) = map (full_row py tot web bl cc) acts"
  by (induction acts) (simp_all add: is_row_full_row)

lemma gen_report_full_rows:
  assumes "gen_report py fs activethreats totalthreats web_categories filehandle = Inr (out, csv)"
      and "totalthreats \<noteq> []"
      and "load_list py fs ''block_categories'' = Inr block_categories"
      and "load_list py fs ''country_codes'' = Inr country_codes"
  shows "filter is_row (out @ csv) =
           map (full_row py totalthreats web_categories block_categories country_codes) activethreats"
proof -
  let ?tf = "filehandle \<noteq> None"
  from assms obtain wa wt out' csv' where
    fr: "full_rows py activethreats totalthreats web_categories block_categories country_codes
           ?tf (0, 0, [], (if ?tf then [Header_full] else [])) = Inr (wa, wt, out', csv')"
    and out: "out = out' @ [Summary_full (int (length activethreats)) wa wt
                (int (length activethreats) - wt)] @
                (case filehandle of None \<Rightarrow> [] | Some name \<Rightarrow> [Csv_written name])"
    and csv: "csv = (if ?tf then csv' @ [Summary_full (int (length activethreats)) wa wt
                (int (length activethreats) - wt)] else csv')"
    by (auto simp: gen_report_def Let_def split: sum.splits prod.splits if_splits)
  from full_rows_lines [OF fr] out csv show ?thesis
    by (cases filehandle) (simp_all add: filter_is_row_full)
qed

text \<open>
  C1. In full mode (the map of historical results is not empty) the report has one row for
  every indicator of the active map, in its order, and the action label of the row is the
  first that applies of: \<^verbatim>\<open>Active\<close> when the active count is positive,
  \<^verbatim>\<open>Not Active\<close> when the historical count is positive, \<^verbatim>\<open>Category Block\<close> when
  \<^verbatim>\<open>checkwebcat\<close> holds of the indicator's categories, \<^verbatim>\<open>Country Block\<close> when
  \<^verbatim>\<open>checkcountry\<close> holds of the indicator, and the empty label otherwise.
\<close>

theorem action_priority:
  assumes "gen_report py fs activethreats totalthreats web_categories filehandle = Inr (out, csv)"
      and "totalthreats \<noteq> []"
      and "load_list py fs ''block_categories'' = Inr block_categories"
      and "load_list py fs ''country_codes'' = Inr country_codes"
  shows "filter is_row (out @ csv) =
     map (\<lambda>(item, e).
            let t = the (map_of totalthreats item); cats = map_of web_categories item in
            Row_full item
              (if entry0 e > 0 then ''Active''
               else if tide_count t > 0 then ''Not Active''
               else if checkwebcat py cats block_categories then ''Category Block''
               else if checkcountry item country_codes then ''Country Block''
               else '''')
              (entry0 e) (entry1 e) (tide_count t) (tide_profiles t) (tide_classes t)
              (tide_last_available t) (tide_last_expiration t) (tide_domain_checked t) cats)
         activethreats"
proof -
  have "full_row py totalthreats web_categories block_categories country_codes =
     (\<lambda>(item, e).
            let t = the (map_of totalthreats item); cats = map_of web_categories item in
            Row_full item
              (if entry0 e > 0 then ''Active''
               else if tide_count t > 0 then ''Not Active''
               else if checkwebcat py cats block_categories then ''Category Block''
               else if checkcountry item country_codes then ''Country Block''
               else '''')
              (entry0 e) (entry1 e) (tide_count t) (tide_profiles t) (tide_classes t)
              (tide_last_available t) (tide_last_expiration t) (tide_domain_checked t) cats)"
    by (rule ext) (simp add: full_row_def action_label_def Let_def split: prod.splits)
  with gen_report_full_rows [OF assms] show ?thesis by simp
qed

lemma active_rows_lines:
  "active_rows acts tf (wa, out, csv) =
     (wa + int (length (filter (\<lambda>p. entry0 (snd p) > 0) acts)),
      (if tf then out else out @ map active_row acts),
      (if tf then csv @ map active_row acts else csv))"
  by (induction acts arbitrary: wa out csv) (auto simp: active_row_def)

lemma filter_summary_active_rows [simp]: "filter is_summary (map active_row acts) = []"
  by (induction acts) (simp_all add: active_row_def)

lemma list_all_schema_active_rows [simp]: "list_all active_schema (map active_row acts)"
  by (induction acts) (simp_all add: active_row_def)

lemma gen_report_active:
  assumes "gen_report py fs activethreats [] web_categories filehandle = Inr (out, csv)"
  shows "out = (if filehandle = None then map active_row activethreats else []) @
               [Summary_active (int (length activethreats))
                  (int (length (filter (\<lambda>p. entry0 (snd p) > 0) activethreats)))
                  (int (length activethreats) -
                   int (length (filter (\<lambda>p. entry0 (snd p) > 0) activethreats)))] @
               (case filehandle of None \<Rightarrow> [] | Some name \<Rightarrow> [Csv_written name])"
    and "csv = (if filehandle = None then []
                else Header_active # map active_row activethreats @
                  [Summary_active (int (length activethreats))
                     (int (length (filter (\<lambda>p. entry0 (snd p) > 0) activethreats)))
                     (int (length activethreats) -
                      int (length (filter (\<lambda>p. entry0 (snd p) > 0) activethreats)))])"
  using assms
  by (auto simp: gen_report_def Let_def active_rows_lines split: sum.splits)

text \<open>
  C9. In active-only mode (the map of historical results is empty) the summary line, on the
  screen and in the file when there is one, reports the number \<open>N\<close> of indicators of
  the active map as the total, the number \<open>K\<close> of those with a positive active count
  as active, and \<open>N - K\<close> as not active.
\<close>

theorem active_only_summary:
  assumes "gen_report py fs activethreats [] web_categories filehandle = Inr (out, csv)"
  shows "filter is_summary out =
           [Summary_active (int (length activethreats))
              (int (length (filter (\<lambda>(item, e). entry0 e > 0) activethreats)))
              (int (length activethreats) -
               int (length (filter (\<lambda>(item, e). entry0 e > 0) activethreats)))] \<and>
         filter is_summary csv =
           (if filehandle = None then []
            else [Summary_active (int (length activethreats))
              (int (length (filter (\<lambda>(item, e). entry0 e > 0) activethreats)))
              (int (length activethreats) -
               int (length (filter (\<lambda>(item, e). entry0 e > 0) activethreats)))])"
proof -
  have eq: "(\<lambda>(item, e). entry0 e > 0) = (\<lambda>p :: string \<times> active_entry. entry0 (snd p) > 0)"
    by (rule ext) (simp split: prod.splits)
  show ?thesis
    unfolding eq gen_report_active [OF assms]
    by (cases filehandle) simp_all
qed

text \<open>
  C5, as the code has it. \<^verbatim>\<open>load_list\<close> raises the I/O error of \<^verbatim>\<open>open\<close> when
  the list file does not exist, and \<^verbatim>\<open>gen_report\<close> ends with that error before it
  prints anything. A list file without lines gives the empty list, and on the empty list
  both evaluators return false.
\<close>

theorem missing_list_raises:
  "(files fs filename = None \<longrightarrow> load_list py fs filename = Inl (IOError filename)) \<and>
   (files fs ''block_categories'' = None \<longrightarrow>
      gen_report py fs activethreats totalthreats web_categories filehandle =
        Inl (IOError ''block_categories'')) \<and>
   (files fs ''block_categories'' \<noteq> None \<and> files fs ''country_codes'' = None \<longrightarrow>
      gen_report py fs activethreats totalthreats web_categories filehandle =
        Inl (IOError ''country_codes'')) \<and>
   (files fs filename = Some [] \<longrightarrow> load_list py fs filename = Inr []) \<and>
   checkwebcat py webcats [] = False \<and>
   checkcountry domain [] = False"
  by (cases webcats)
     (auto simp: load_list_def gen_report_def checkwebcat_def checkwebcat_run_def
        checkcountry_def Let_def)

text \<open>
  On a file system without the file \<^verbatim>\<open>block_categories\<close>, \<^verbatim>\<open>load_list\<close> gives an
  error and not the empty list.
\<close>

theorem missing_list_counterexample:
  "load_list sample_py bare_fs ''block_categories'' = Inl (IOError ''block_categories'') \<and>
   load_list sample_py bare_fs ''block_categories'' \<noteq> Inr [] \<and>
   gen_report sample_py bare_fs sample_activethreats sample_totalthreats sample_web_cats None =
     Inl (IOError ''block_categories'')"
  by (simp add: load_list_def gen_report_def bare_fs_def)

section \<open>Properties of the run\<close>

lemma checkactive_no_querytide:
  "checkactive u query qtype b cd dc = (res, cs) \<Longrightarrow> filter is_querytide cs = []"
  using checkactive_calls_cases [of u query qtype b cd dc] by auto

lemma checkoffline_no_querytide:
  "checkoffline u query qtype db_cursor db_table = (res, cs) \<Longrightarrow> filter is_querytide cs = []"
  by (auto simp: checkoffline_def Let_def split: if_splits prod.splits)

lemma get_web_categories_no_querytide:
  "get_web_categories query qtype b = (cats, cs) \<Longrightarrow> filter is_querytide cs = []"
  by (auto simp: get_web_categories_def Let_def split: if_splits)

lemma process_line_activeonly:
  "st_totalthreats (process_line py u b db True wc cd bo st ln) = st_totalthreats st \<and>
   filter is_querytide (st_calls (process_line py u b db True wc cd bo st ln)) =
     filter is_querytide (st_calls st)"
  by (auto simp: process_line_def Let_def
        split: option.splits prod.splits
        dest: checkactive_no_querytide checkoffline_no_querytide
              get_web_categories_no_querytide)

lemma process_lines_activeonly:
  "st_totalthreats (process_lines py u b db True wc cd bo st lns) = st_totalthreats st \<and>
   filter is_querytide (st_calls (process_lines py u b db True wc cd bo st lns)) =
     filter is_querytide (st_calls st)"
  by (induction lns arbitrary: st) (simp_all add: process_line_activeonly)

lemma gen_report_active_schema:
  assumes "gen_report py fs activethreats [] web_categories filehandle = Inr (out, csv)"
  shows "list_all active_schema (out @ csv)"
  unfolding gen_report_active [OF assms]
  by (cases filehandle) simp_all

lemma main_body_cases:
  "(run_state (main_body py u b fs a) = init_state \<and>
    run_stdout (main_body py u b fs a) = [] \<and> run_csv (main_body py u b fs a) = []) \<or>
   (\<exists>db bo lns. run_state (main_body py u b fs a) =
        process_lines py u b db (arg_active a \<or> truthy (arg_local a)) (arg_webcat a)
          (arg_check_domains a) bo init_state lns \<and>
      ((run_stdout (main_body py u b fs a) = [] \<and> run_csv (main_body py u b fs a) = []) \<or>
       (\<exists>fs2 fh. gen_report py fs2 (st_activethreats (run_state (main_body py u b fs a)))
                   (st_totalthreats (run_state (main_body py u b fs a)))
                   (st_web_cats (run_state (main_body py u b fs a))) fh =
                 Inr (run_stdout (main_body py u b fs a), run_csv (main_body py u b fs a)))))"
proof (cases "open_database u a")
  case (Inl err)
  then show ?thesis by (simp add: main_body_def aborted_def)
next
  case (Inr database)
  obtain bogus_out fs1 where bo:
    "(if truthy (arg_bogus a) then open_file fs (the (arg_bogus a)) else (None, fs)) =
       (bogus_out, fs1)"
    by (cases "if truthy (arg_bogus a) then open_file fs (the (arg_bogus a)) else (None, fs)")
  show ?thesis
  proof (cases "truthy (arg_bogus a) \<and> bogus_out = None")
    case True
    with Inr bo show ?thesis by (simp add: main_body_def aborted_def)
  next
    case nb: False
    obtain outfile fs2 where ou:
      "(if truthy (arg_output a) then open_file fs1 (the (arg_output a)) else (None, fs1)) =
         (outfile, fs2)"
      by (cases "if truthy (arg_output a) then open_file fs1 (the (arg_output a))
                 else (None, fs1)")
    show ?thesis
    proof (cases "files fs2 (arg_input a)")
      case None
      with Inr bo nb ou show ?thesis by (auto simp add: main_body_def aborted_def init_state_def simp del: not_None_eq)
    next
      case (Some lns)
      let ?st = "process_lines py u b database (arg_active a \<or> truthy (arg_local a))
                   (arg_webcat a) (arg_check_domains a) (bogus_out \<noteq> None) init_state lns"
      let ?g = "gen_report py fs2 (st_activethreats ?st) (st_totalthreats ?st) (st_web_cats ?st)
                  outfile"
      have m: "main_body py u b fs a =
        (case ?g of
           Inl (IOError msg) \<Rightarrow>
             \<lparr>run_outcome = Returned 1, run_state = ?st, run_stdout = [], run_csv = []\<rparr>
         | Inl err \<Rightarrow>
             \<lparr>run_outcome = Raised err, run_state = ?st, run_stdout = [], run_csv = []\<rparr>
         | Inr (out, csv) \<Rightarrow>
             \<lparr>run_outcome = Returned 0, run_state = ?st, run_stdout = out, run_csv = csv\<rparr>)"
        using Inr bo nb ou Some by (auto simp add: main_body_def Let_def aborted_def simp del: not_None_eq)
      show ?thesis
      proof (cases ?g)
        case (Inl err)
        then have "run_state (main_body py u b fs a) = ?st \<and> run_stdout (main_body py u b fs a) = [] \<and>
                   run_csv (main_body py u b fs a) = []"
          unfolding m by (cases err) simp_all
        then show ?thesis by blast
      next
        case (Inr r)
        obtain out csv where r: "r = (out, csv)" by (cases r)
        with Inr have "run_state (main_body py u b fs a) = ?st \<and> run_stdout (main_body py u b fs a) = out \<and>
                   run_csv (main_body py u b fs a) = csv"
          unfolding m by simp
        with Inr r show ?thesis by metis
      qed
    qed
  qed
qed

text \<open>
  The body of \<^verbatim>\<open>main\<close> on options with a local database file: whatever the other
  options are, it makes no \<^verbatim>\<open>querytide\<close> call, the map of historical results stays
  empty, and every line of the report belongs to the four-column schema, which has no
  action label.
\<close>

lemma main_body_local_active_only:
  assumes "truthy (arg_local a)"
  shows "st_totalthreats (run_state (main_body py u b fs a)) = [] \<and>
         filter is_querytide (st_calls (run_state (main_body py u b fs a))) = [] \<and>
         list_all active_schema
           (run_stdout (main_body py u b fs a) @ run_csv (main_body py u b fs a))"
proof -
  let ?r = "main_body py u b fs a"
  have mc: "(run_state ?r = init_state \<and> run_stdout ?r = [] \<and> run_csv ?r = []) \<or>
     (\<exists>db bo lns. run_state ?r =
        process_lines py u b db True (arg_webcat a) (arg_check_domains a) bo init_state lns \<and>
      ((run_stdout ?r = [] \<and> run_csv ?r = []) \<or>
       (\<exists>fs2 fh. gen_report py fs2 (st_activethreats (run_state ?r))
                   (st_totalthreats (run_state ?r)) (st_web_cats (run_state ?r)) fh =
                 Inr (run_stdout ?r, run_csv ?r))))"
    using main_body_cases [of py u b fs a] assms by simp
  then consider
      (early) "run_state ?r = init_state" "run_stdout ?r = []" "run_csv ?r = []"
    | (ran) db bo lns where
        "run_state ?r = process_lines py u b db True (arg_webcat a) (arg_check_domains a) bo
           init_state lns"
        "(run_stdout ?r = [] \<and> run_csv ?r = []) \<or>
         (\<exists>fs2 fh. gen_report py fs2 (st_activethreats (run_state ?r))
                   (st_totalthreats (run_state ?r)) (st_web_cats (run_state ?r)) fh =
                 Inr (run_stdout ?r, run_csv ?r))"
    by blast
  then show ?thesis
  proof cases
    case early
    then show ?thesis by (simp add: init_state_def)
  next
    case ran
    have tot: "st_totalthreats (run_state ?r) = []"
      and calls: "filter is_querytide (st_calls (run_state ?r)) = []"
      unfolding ran(1) by (simp_all add: process_lines_activeonly init_state_def)
    from ran(2) have "list_all active_schema (run_stdout ?r @ run_csv ?r)"
    proof
      assume "run_stdout ?r = [] \<and> run_csv ?r = []"
      then show ?thesis by simp
    next
      assume "\<exists>fs2 fh. gen_report py fs2 (st_activethreats (run_state ?r))
                   (st_totalthreats (run_state ?r)) (st_web_cats (run_state ?r)) fh =
                 Inr (run_stdout ?r, run_csv ?r)"
      then obtain fs2 fh where
        "gen_report py fs2 (st_activethreats (run_state ?r)) [] (st_web_cats (run_state ?r)) fh =
           Inr (run_stdout ?r, run_csv ?r)"
        unfolding tot by blast
      then show ?thesis by (rule gen_report_active_schema)
    qed
    with tot calls show ?thesis by simp
  qed
qed

lemma sample_lists:
  "load_list sample_py sample_fs ''block_categories'' = Inr [''gambling'']"
  "load_list sample_py sample_fs ''country_codes'' = Inr [''.ru'']"
  by (simp_all add: load_list_def sample_fs_def rstrip_def isspace_def isascii_def)

theorem action_priority_witness:
  "\<exists>out csv.
     gen_report sample_py sample_fs sample_activethreats sample_totalthreats sample_web_cats None =
       Inr (out, csv) \<and>
     sample_totalthreats \<noteq> [] \<and>
     map row_action (filter is_row (out @ csv)) =
       [''Active'', ''Not Active'', ''Category Block'', ''Country Block'', []]"
proof -
  obtain out csv where g:
    "gen_report sample_py sample_fs sample_activethreats sample_totalthreats sample_web_cats None =
       Inr (out, csv)"
    by (simp add: gen_report_def sample_lists sample_activethreats_def sample_totalthreats_def
          sample_web_cats_def Let_def)
  have ne: "sample_totalthreats \<noteq> []" by (simp add: sample_totalthreats_def)
  have r: "map row_action (filter is_row (out @ csv)) =
       [''Active'', ''Not Active'', ''Category Block'', ''Country Block'', []]"
    unfolding action_priority [OF g ne sample_lists]
    by code_simp
  show ?thesis
  proof (intro exI conjI)
    show "gen_report sample_py sample_fs sample_activethreats sample_totalthreats sample_web_cats None =
       Inr (out, csv)" by (rule g)
    show "sample_totalthreats \<noteq> []" by (rule ne)
    show "map row_action (filter is_row (out @ csv)) =
       [''Active'', ''Not Active'', ''Category Block'', ''Country Block'', []]" by (rule r)
  qed
qed

theorem active_only_summary_witness:
  "\<exists>out csv.
     gen_report sample_py sample_fs sample_activethreats [] sample_web_cats (Some ''report.csv'') =
       Inr (out, csv) \<and>
     filter is_summary out = [Summary_active 5 1 4] \<and>
     filter is_summary csv = [Summary_active 5 1 4]"
proof -
  obtain out csv where g:
    "gen_report sample_py sample_fs sample_activethreats [] sample_web_cats (Some ''report.csv'') =
       Inr (out, csv)"
    by (simp add: gen_report_def sample_lists Let_def active_rows_lines)
  from active_only_summary [OF g] have r:
    "filter is_summary out = [Summary_active 5 1 4]"
    "filter is_summary csv = [Summary_active 5 1 4]"
    by (simp_all add: sample_activethreats_def)
  show ?thesis
  proof (intro exI conjI)
    show "gen_report sample_py sample_fs sample_activethreats [] sample_web_cats (Some ''report.csv'') =
       Inr (out, csv)" by (rule g)
    show "filter is_summary out = [Summary_active 5 1 4]" by (rule r(1))
    show "filter is_summary csv = [Summary_active 5 1 4]" by (rule r(2))
  qed
qed

theorem missing_list_raises_witness:
  "files bare_fs ''country_codes'' = None \<and>
   load_list sample_py bare_fs ''country_codes'' = Inl (IOError ''country_codes'') \<and>
   gen_report sample_py bare_fs sample_activethreats [] [] None = Inl (IOError ''block_categories'') \<and>
   files one_list_fs ''block_categories'' = Some [] \<and>
   files one_list_fs ''country_codes'' = None \<and>
   gen_report sample_py one_list_fs sample_activethreats [] [] None = Inl (IOError ''country_codes'') \<and>
   load_list sample_py one_list_fs ''block_categories'' = Inr [] \<and>
   checkwebcat sample_py (Some [''Gambling'']) [] = False \<and>
   checkcountry ''site.ru'' [] = False"
  using missing_list_raises [where fs = bare_fs
          and filename = "''country_codes''" and activethreats = sample_activethreats
          and totalthreats = "[]" and web_categories = "[]" and filehandle = None
          and webcats = "Some [''Gambling'']" and domain = "''site.ru''"]
        missing_list_raises [where fs = one_list_fs
          and filename = "''block_categories''" and activethreats = sample_activethreats
          and totalthreats = "[]" and web_categories = "[]" and filehandle = None
          and webcats = "Some [''Gambling'']" and domain = "''site.ru''"]
  by (simp add: bare_fs_def one_list_fs_def)

lemma sample_main_body:
  "run_outcome (main_body sample_py sample_utils sample_b1td sample_fs sample_args) =
     Returned 0 \<and>
   run_stdout (main_body sample_py sample_utils sample_b1td sample_fs sample_args) =
     [Row_active ''bad.example.org'' 1 (Profiles [''IID'']) [''Phishing''],
      Row_active ''www.example.com'' 0 (Profiles []) [],
      Row_active ''site.ru'' 0 (Profiles []) [],
      Summary_active 3 1 2] \<and>
   st_calls (run_state (main_body sample_py sample_utils sample_b1td sample_fs sample_args)) =
     [Db_query ''host'' ''bad.example.org'', Dossierquery ''host'' ''bad.example.org'',
      Db_query ''host'' ''www.example.com'', Dossierquery ''host'' ''www.example.com'',
      Db_query ''host'' ''site.ru'', Dossierquery ''host'' ''site.ru'']"
  by code_simp

lemma sample_main_body_local:
  "truthy (arg_local sample_args) \<and>
   st_totalthreats (run_state (main_body sample_py sample_utils sample_b1td sample_fs
     sample_args)) = [] \<and>
   filter is_querytide
     (st_calls (run_state (main_body sample_py sample_utils sample_b1td sample_fs
        sample_args))) = []"
proof -
  have t: "truthy (arg_local sample_args)" by (simp add: truthy_def sample_args_def)
  from main_body_local_active_only [OF t, of sample_py sample_utils sample_b1td sample_fs] t
  show ?thesis by simp
qed

lemma main_raises:
  "main py u b fs raw_args =
     aborted (TypeError ''parseargs() takes 0 positional arguments but 1 was given'')"
  by (simp add: main_def parseargs_def)

text \<open>
  C10. The call \<^verbatim>\<open>parseargs(raw_args)\<close> raises \<^verbatim>\<open>TypeError\<close> whatever the command
  line is, so a run with the local database option prints no report. For the command line
  \<^verbatim>\<open>-i iocs.txt -C -w -l tide.db\<close>, \<^verbatim>\<open>main\<close> ends with the \<^verbatim>\<open>TypeError\<close>,
  having made no call and printed no line; the body of \<^verbatim>\<open>main\<close> on the options that
  this command line stands for returns 0 and prints the four-column report.
\<close>

theorem local_run_raises:
  "run_outcome (main sample_py sample_utils sample_b1td sample_fs
     (Some [''-i'', ''iocs.txt'', ''-C'', ''-w'', ''-l'', ''tide.db''])) =
     Raised (TypeError ''parseargs() takes 0 positional arguments but 1 was given'') \<and>
   st_calls (run_state (main sample_py sample_utils sample_b1td sample_fs
     (Some [''-i'', ''iocs.txt'', ''-C'', ''-w'', ''-l'', ''tide.db'']))) = [] \<and>
   run_stdout (main sample_py sample_utils sample_b1td sample_fs
     (Some [''-i'', ''iocs.txt'', ''-C'', ''-w'', ''-l'', ''tide.db''])) = [] \<and>
   run_csv (main sample_py sample_utils sample_b1td sample_fs
     (Some [''-i'', ''iocs.txt'', ''-C'', ''-w'', ''-l'', ''tide.db''])) = [] \<and>
   run_outcome (main_body sample_py sample_utils sample_b1td sample_fs sample_args) =
     Returned 0 \<and>
   run_stdout (main_body sample_py sample_utils sample_b1td sample_fs sample_args) =
     [Row_active ''bad.example.org'' 1 (Profiles [''IID'']) [''Phishing''],
      Row_active ''www.example.com'' 0 (Profiles []) [],
      Row_active ''site.ru'' 0 (Profiles []) [],
      Summary_active 3 1 2]"
  using sample_main_body
  by (simp add: main_raises aborted_def init_state_def)

end
